theory Spec2Isabelle
  imports Complex_Main "HOL-Library.Char_ord" "HOL-Library.List_Lexorder"
begin

section \<open>Python values and exceptions shared by both Lambda handlers\<close>

text \<open>
  The stocks pipeline is two Python Lambda handlers: \<^verbatim>\<open>lambdas/ingestion/handler.py\<close>
  and \<^verbatim>\<open>lambdas/query/handler.py\<close>.  Every exception the handlers can raise is a
  value of \<open>error\<close>; a function that may raise returns \<open>error + 'a\<close>.

  Python floats are modelled by the real numbers they denote (every finite float is
  a real number; comparison, \<open>abs\<close> and negation are exact on floats).  The rounding of
  float arithmetic, infinities and NaN are outside the model.
\<close>

datatype error =
    ClientError
  | KeyError
  | ValueError
  | TypeError
  | AttributeError
  | ZeroDivisionError
  | OverflowError
  | JSONDecodeError
  | IndexError

section \<open>Python numbers as text, and \<^verbatim>\<open>round\<close>\<close>

text \<open>
  \<^verbatim>\<open>round(x, ndigits)\<close> on a float: the closest multiple of \<open>10^-ndigits\<close>, and of two
  equally close multiples the one with the even last digit.
\<close>

definition round_half_even :: "real \<Rightarrow> int" where
  "round_half_even q =
     (let f = \<lfloor>q\<rfloor>; d = q - of_int f
      in if d < 1 / 2 then f
         else if 1 / 2 < d then f + 1
         else if even f then f else f + 1)"

definition py_round :: "real \<Rightarrow> nat \<Rightarrow> real" where
  "py_round x ndigits = of_int (round_half_even (x * 10 ^ ndigits)) / 10 ^ ndigits"

text \<open>Decimal digits: \<^verbatim>\<open>str(n)\<close> for a non-negative integer, and \<^verbatim>\<open>s.zfill(w)\<close>.\<close>

definition digit_char :: "nat \<Rightarrow> char" where
  "digit_char d = ''0123456789'' ! d"

fun str_nat :: "nat \<Rightarrow> string" where
  "str_nat n = (if n < 10 then [digit_char n] else str_nat (n div 10) @ [digit_char (n mod 10)])"

declare str_nat.simps [simp del]

definition zfill :: "nat \<Rightarrow> string \<Rightarrow> string" where
  "zfill w s = replicate (w - length s) CHR ''0'' @ s"

definition rstrip_zeros :: "string \<Rightarrow> string" where
  "rstrip_zeros s = rev (dropWhile (\<lambda>c. c = CHR ''0'') (rev s))"

text \<open>
  \<^verbatim>\<open>str(v)\<close> for a float \<open>v\<close> that is a multiple of \<open>10^-n\<close>, as \<^verbatim>\<open>round(x, n)\<close> returns
  it: sign, integer part, a point, and the fractional digits without trailing zeros but at
  least one of them (\<^verbatim>\<open>'2.0'\<close>, \<^verbatim>\<open>'-5.0'\<close>, \<^verbatim>\<open>'1.2346'\<close>).  Python switches to exponent
  notation from \<open>10^16\<close> on and prints \<^verbatim>\<open>'-0.0'\<close> for a negative zero; both are outside
  the model.  \<open>str_fixed n m\<close> prints the unsigned number \<open>m / 10^n\<close>.
\<close>

definition str_fixed :: "nat \<Rightarrow> nat \<Rightarrow> string" where
  "str_fixed n m =
     (let ip = str_nat (m div 10 ^ n);
          fp = rstrip_zeros (zfill n (str_nat (m mod 10 ^ n)))
      in ip @ ''.'' @ (if fp = [] then ''0'' else fp))"

definition py_str_decimal :: "nat \<Rightarrow> real \<Rightarrow> string" where
  "py_str_decimal n v = (if v < 0 then ''-'' else []) @ str_fixed n (nat \<lfloor>\<bar>v\<bar> * 10 ^ n\<rfloor>)"

text \<open>
  \<^verbatim>\<open>float(s)\<close> for a string: an optional sign, digits, and optionally a point and more
  digits, with at least one digit in all; anything else raises \<open>ValueError\<close>.  (Python also
  accepts surrounding blanks, exponents, underscores, \<^verbatim>\<open>inf\<close> and \<^verbatim>\<open>nan\<close>; those
  spellings are outside the model.)
\<close>

definition digit_val :: "char \<Rightarrow> nat option" where
  "digit_val c = map_of
     [(CHR ''0'', 0), (CHR ''1'', 1), (CHR ''2'', 2), (CHR ''3'', 3), (CHR ''4'', 4),
      (CHR ''5'', 5), (CHR ''6'', 6), (CHR ''7'', 7), (CHR ''8'', 8), (CHR ''9'', 9)] c"

fun digits_val :: "nat \<Rightarrow> string \<Rightarrow> nat option" where
  "digits_val acc [] = Some acc"
| "digits_val acc (c # cs) =
     (case digit_val c of None \<Rightarrow> None | Some d \<Rightarrow> digits_val (acc * 10 + d) cs)"

definition py_float_str :: "string \<Rightarrow> error + real" where
  "py_float_str s =
     (let neg = (case s of c # _ \<Rightarrow> c = CHR ''-'' | [] \<Rightarrow> False);
          body = (case s of c # r \<Rightarrow> if c = CHR ''-'' \<or> c = CHR ''+'' then r else s | [] \<Rightarrow> s);
          ip = takeWhile (\<lambda>c. c \<noteq> CHR ''.'') body;
          fp = drop 1 (dropWhile (\<lambda>c. c \<noteq> CHR ''.'') body)
      in if ip = [] \<and> fp = [] then Inl ValueError
         else (case (digits_val 0 ip, digits_val 0 fp) of
                 (Some a, Some b) \<Rightarrow>
                   Inr ((if neg then - 1 else 1) * (of_nat a + of_nat b / 10 ^ length fp))
               | _ \<Rightarrow> Inl ValueError))"

section \<open>Ingestion: mover calculator\<close>

text \<open>
  \<^verbatim>\<open>def calculate_pct_change(open_price, close_price):
      return ((close_price - open_price) / open_price) * 100\<close>
  Float division by zero raises \<open>ZeroDivisionError\<close> in Python.
\<close>

definition calculate_pct_change :: "real \<Rightarrow> real \<Rightarrow> error + real" where
  "calculate_pct_change open_price close_price =
     (if open_price = 0 then Inl ZeroDivisionError
      else Inr (((close_price - open_price) / open_price) * 100))"

text \<open>One element of the list \<^verbatim>\<open>results\<close> that \<^verbatim>\<open>main\<close> collects.\<close>

record result =
  ticker :: string
  pct_change :: real
  closing_price :: real

text \<open>
  Python's builtin \<^verbatim>\<open>max(iterable, key=f)\<close>: the first item is the candidate, and a
  later item replaces it only when its key is strictly greater.  On an empty iterable it
  raises \<open>ValueError\<close>.
\<close>

fun max_loop :: "('a \<Rightarrow> 'k::linorder) \<Rightarrow> 'a \<Rightarrow> 'a list \<Rightarrow> 'a" where
  "max_loop key best [] = best"
| "max_loop key best (x # xs) =
     (if key best < key x then max_loop key x xs else max_loop key best xs)"

definition py_max :: "('a \<Rightarrow> 'k::linorder) \<Rightarrow> 'a list \<Rightarrow> error + 'a" where
  "py_max key xs = (case xs of [] \<Rightarrow> Inl ValueError | x # rest \<Rightarrow> Inr (max_loop key x rest))"

text \<open>\<^verbatim>\<open>winner = max(results, key=lambda x: abs(x["pct_change"]))\<close>\<close>

definition select_winner :: "result list \<Rightarrow> error + result" where
  "select_winner results = py_max (\<lambda>x. \<bar>pct_change x\<bar>) results"

section \<open>Ingestion: the market data client\<close>

text \<open>\<^verbatim>\<open>RETRY_DELAY = 1.0\<close>, \<^verbatim>\<open>MAX_RETRIES = 2\<close> and the watchlist, as configured.\<close>

definition RETRY_DELAY :: real where
  "RETRY_DELAY = 1"

definition MAX_RETRIES :: nat where
  "MAX_RETRIES = 2"

definition WATCHLIST :: "string list" where
  "WATCHLIST = [''AAPL'', ''MSFT'', ''GOOGL'', ''AMZN'', ''TSLA'', ''NVDA'']"

text \<open>
  What \<^verbatim>\<open>resp.json()\<close> returns: a JSON document as Python values.  An object is the list
  of its entries; \<^verbatim>\<open>dict.get\<close> finds the entry of a key and gives \<^verbatim>\<open>None\<close> (\<open>JNull\<close>)
  when there is none.
\<close>

datatype json =
    JNull
  | JBool bool
  | JNum real
  | JStr string
  | JArr "json list"
  | JObj "(string \<times> json) list"

text \<open>Truth value of a Python object, as \<^verbatim>\<open>not x\<close> and \<^verbatim>\<open>x or y\<close> test it.\<close>

fun truthy :: "json \<Rightarrow> bool" where
  "truthy JNull = False"
| "truthy (JBool b) = b"
| "truthy (JNum x) = (x \<noteq> 0)"
| "truthy (JStr s) = (s \<noteq> [])"
| "truthy (JArr xs) = (xs \<noteq> [])"
| "truthy (JObj kvs) = (kvs \<noteq> [])"

text \<open>\<^verbatim>\<open>d.get(key, default)\<close>: only a dict has the method.\<close>

fun dict_get :: "json \<Rightarrow> string \<Rightarrow> json \<Rightarrow> error + json" where
  "dict_get (JObj kvs) k dflt = Inr (case map_of kvs k of None \<Rightarrow> dflt | Some v \<Rightarrow> v)"
| "dict_get _ k dflt = Inl AttributeError"

text \<open>
  \<^verbatim>\<open>results[0]\<close>: the first element of a list or the first character of a string; a dict
  has no key \<open>0\<close> (JSON keys are strings), and a number or a boolean is not subscriptable.
\<close>

fun subscript0 :: "json \<Rightarrow> error + json" where
  "subscript0 (JArr (x # xs)) = Inr x"
| "subscript0 (JArr []) = Inl IndexError"
| "subscript0 (JStr (c # cs)) = Inr (JStr [c])"
| "subscript0 (JStr []) = Inl IndexError"
| "subscript0 (JObj kvs) = Inl KeyError"
| "subscript0 _ = Inl TypeError"

text \<open>\<^verbatim>\<open>x == 0\<close>: true of the number zero and of \<^verbatim>\<open>False\<close>.\<close>

fun eq_zero :: "json \<Rightarrow> bool" where
  "eq_zero (JNum x) = (x = 0)"
| "eq_zero (JBool b) = (\<not> b)"
| "eq_zero _ = False"

text \<open>\<^verbatim>\<open>float(x)\<close>\<close>

fun py_float :: "json \<Rightarrow> error + real" where
  "py_float (JNum x) = Inr x"
| "py_float (JBool b) = Inr (if b then 1 else 0)"
| "py_float (JStr s) = py_float_str s"
| "py_float _ = Inl TypeError"

text \<open>The dict \<^verbatim>\<open>{"O": float, "C": float}\<close> that \<^verbatim>\<open>fetch_ticker\<close> returns.\<close>

record quote =
  O_price :: real
  C_price :: real

text \<open>
  \<open>get_either bar k1 k2\<close> is \<^verbatim>\<open>bar.get(k1) or bar.get(k2)\<close>: the second lookup is
  taken whenever the first value is false as a truth value, which \<^verbatim>\<open>None\<close> is and the
  number zero too.

  The branch \<^verbatim>\<open>if resp.status_code == 200:\<close> of \<^verbatim>\<open>fetch_ticker\<close>, on the body of the
  response (\<open>None\<close> when the body is not JSON, so that \<^verbatim>\<open>resp.json()\<close> raises).  The value
  \<open>Inr None\<close> is \<^verbatim>\<open>return None\<close>; \<open>Inl e\<close> is an exception raised inside the
  \<^verbatim>\<open>try\<close>.
\<close>

definition get_either :: "json \<Rightarrow> string \<Rightarrow> string \<Rightarrow> error + json" where
  "get_either bar k1 k2 =
     (case dict_get bar k1 JNull of
        Inl e \<Rightarrow> Inl e
      | Inr v \<Rightarrow> if truthy v then Inr v else dict_get bar k2 JNull)"

definition on_status_200 :: "json option \<Rightarrow> error + quote option" where
  "on_status_200 body =
     (case body of
        None \<Rightarrow> Inl JSONDecodeError
      | Some data \<Rightarrow>
          (case dict_get data ''results'' (JArr []) of
             Inl e \<Rightarrow> Inl e
           | Inr results \<Rightarrow>
               if \<not> truthy results then Inr None
               else
                 (case subscript0 results of
                    Inl e \<Rightarrow> Inl e
                  | Inr bar \<Rightarrow>
                      (case get_either bar ''o'' ''O'' of
                         Inl e \<Rightarrow> Inl e
                       | Inr open_price \<Rightarrow>
                           (case get_either bar ''c'' ''C'' of
                              Inl e \<Rightarrow> Inl e
                            | Inr close_price \<Rightarrow>
                                if open_price = JNull \<or> close_price = JNull then Inr None
                                else if eq_zero open_price then Inr None
                                else
                                  (case py_float open_price of
                                     Inl e \<Rightarrow> Inl e
                                   | Inr op \<Rightarrow>
                                       (case py_float close_price of
                                          Inl e \<Rightarrow> Inl e
                                        | Inr cl \<Rightarrow>
                                            Inr (Some \<lparr>O_price = op, C_price = cl\<rparr>))))))))"

text \<open>
  What one \<^verbatim>\<open>requests.get\<close> does: it returns a response with a status code and a body,
  or raises \<^verbatim>\<open>Timeout\<close>, \<^verbatim>\<open>ConnectionError\<close> or another exception.  (A connect timeout
  is both a \<^verbatim>\<open>ConnectionError\<close> and a \<^verbatim>\<open>Timeout\<close>; the \<^verbatim>\<open>except Timeout\<close> clause comes
  first, so it counts as \<open>RaisesTimeout\<close>.)
\<close>

datatype outcome =
    Response nat "json option"
  | RaisesTimeout
  | RaisesConnectionError
  | RaisesOther

text \<open>
  A DynamoDB attribute value as boto3 hands it to Python: a string (type S), a number
  (type N, a \<^verbatim>\<open>Decimal\<close>) or null.  An item is a dict of attributes, written as the list
  of its entries.
\<close>

datatype attr = DStr string | DNum real | DNull

type_synonym item = "(string \<times> attr) list"

text \<open>What a run does to the outside world, in order.\<close>

datatype event =
    GetSecret
  | HttpGet string nat
  | Sleep real
  | PutItem item
  | BatchGetItem "string list"

text \<open>
  The loop \<^verbatim>\<open>for attempt in range(1, MAX_RETRIES + 2)\<close> of \<^verbatim>\<open>fetch_ticker\<close>, on the
  attempts still to make.  \<open>nt tk attempt\<close> is the outcome of the request that
  attempt makes.  The result is the returned value with the requests and sleeps made.
\<close>

fun fetch_loop :: "(string \<Rightarrow> nat \<Rightarrow> outcome) \<Rightarrow> string \<Rightarrow> nat list \<Rightarrow> quote option \<times> event list" where
  "fetch_loop nt tk [] = (None, [])"
| "fetch_loop nt tk (attempt # rest) =
     (case nt tk attempt of
        Response status_code body \<Rightarrow>
          if status_code = 200 then
            (case on_status_200 body of
               Inl e \<Rightarrow> (None, [HttpGet tk attempt])
             | Inr r \<Rightarrow> (r, [HttpGet tk attempt]))
          else if status_code = 429 then
            (let wait = RETRY_DELAY * 2 ^ (attempt - 1);
                 (r, evs) = fetch_loop nt tk rest
             in (r, HttpGet tk attempt # Sleep wait # evs))
          else if status_code \<in> {500, 502, 503, 504} then
            (let (r, evs) = fetch_loop nt tk rest
             in (r, HttpGet tk attempt # Sleep RETRY_DELAY # evs))
          else (None, [HttpGet tk attempt])
      | RaisesTimeout \<Rightarrow>
          (let (r, evs) = fetch_loop nt tk rest
           in (r, HttpGet tk attempt # Sleep RETRY_DELAY # evs))
      | RaisesConnectionError \<Rightarrow> (None, [HttpGet tk attempt])
      | RaisesOther \<Rightarrow> (None, [HttpGet tk attempt]))"

definition fetch_ticker :: "(string \<Rightarrow> nat \<Rightarrow> outcome) \<Rightarrow> string \<Rightarrow> quote option \<times> event list" where
  "fetch_ticker nt tk = fetch_loop nt tk [1 ..< MAX_RETRIES + 2]"

text \<open>
  The retry policy in the words of the specification, to compare \<open>fetch_ticker\<close> with:
  HTTP 429, HTTP 500/502/503/504 and a timeout are transient; the delay before the next
  attempt is the base delay times \<open>2^(attempt - 1)\<close> after a 429 and the base delay after
  the others.
\<close>

fun spec_transient :: "outcome \<Rightarrow> bool" where
  "spec_transient (Response c b) = (c = 429 \<or> c \<in> {500, 502, 503, 504})"
| "spec_transient RaisesTimeout = True"
| "spec_transient RaisesConnectionError = False"
| "spec_transient RaisesOther = False"

fun spec_retry_delay :: "nat \<Rightarrow> outcome \<Rightarrow> real" where
  "spec_retry_delay a (Response c b) = (if c = 429 then RETRY_DELAY * 2 ^ (a - 1) else RETRY_DELAY)"
| "spec_retry_delay a _ = RETRY_DELAY"

text \<open>What \<open>fetch_ticker\<close> returns from an attempt it does not retry.\<close>

fun attempt_result :: "outcome \<Rightarrow> quote option" where
  "attempt_result (Response c b) =
     (if c = 200 then (case on_status_200 b of Inl e \<Rightarrow> None | Inr r \<Rightarrow> r) else None)"
| "attempt_result _ = None"

text \<open>Reading a list of events: the requests in it, and what comes right after an event.\<close>

fun is_HttpGet :: "event \<Rightarrow> bool" where
  "is_HttpGet (HttpGet tk a) = True"
| "is_HttpGet _ = False"

fun is_PutItem :: "event \<Rightarrow> bool" where
  "is_PutItem (PutItem it) = True"
| "is_PutItem _ = False"

definition next_event :: "event list \<Rightarrow> event \<Rightarrow> event option" where
  "next_event evs e =
     (case dropWhile (\<lambda>x. x \<noteq> e) evs of
        x # y # rest \<Rightarrow> Some y
      | _ \<Rightarrow> None)"

section \<open>Example responses of the market data API\<close>

text \<open>A well-formed body with one daily bar, and the body of a day without trading.\<close>

definition bar_body :: "real \<Rightarrow> real \<Rightarrow> json option" where
  "bar_body op cl = Some (JObj [(''results'', JArr [JObj [(''o'', JNum op), (''c'', JNum cl)]])])"

definition empty_body :: "json option" where
  "empty_body = Some (JObj [(''results'', JArr [])])"

text \<open>An API that is rate limited twice and then answers with open 200 and close 190.\<close>

definition net_rate_limited :: "string \<Rightarrow> nat \<Rightarrow> outcome" where
  "net_rate_limited tk a = (if a < 3 then Response 429 None else Response 200 (bar_body 200 190))"

section \<open>Dates\<close>

text \<open>
  A \<^verbatim>\<open>datetime.date\<close> is its proleptic Gregorian ordinal (day 1 is 0001-01-01), which is
  how Python subtracts a \<^verbatim>\<open>timedelta\<close> from it.  \<open>ord2ymd\<close> is the conversion of
  CPython's \<^verbatim>\<open>datetime\<close> module and \<open>isoformat\<close> prints \<^verbatim>\<open>YYYY-MM-DD\<close>.
\<close>

definition DAYS_IN_MONTH :: "nat \<Rightarrow> nat" where
  "DAYS_IN_MONTH m = [0, 31, 28, 31, 30, 31, 30, 31, 31, 30, 31, 30, 31] ! m"

definition DAYS_BEFORE_MONTH :: "nat \<Rightarrow> nat" where
  "DAYS_BEFORE_MONTH m = [0, 0, 31, 59, 90, 120, 151, 181, 212, 243, 273, 304, 334] ! m"

definition ord2ymd :: "nat \<Rightarrow> nat \<times> nat \<times> nat" where
  "ord2ymd ordinal =
     (let n = ordinal - 1;
          n400 = n div 146097; n = n mod 146097;
          n100 = n div 36524; n = n mod 36524;
          n4 = n div 1461; n = n mod 1461;
          n1 = n div 365; n = n mod 365;
          year = n400 * 400 + 1 + n100 * 100 + n4 * 4 + n1
      in if n1 = 4 \<or> n100 = 4 then (year - 1, 12, 31)
         else
           (let leapyear = (n1 = 3 \<and> (n4 \<noteq> 24 \<or> n100 = 3));
                month = (n + 50) div 32;
                preceding = DAYS_BEFORE_MONTH month + (if 2 < month \<and> leapyear then 1 else 0)
            in if n < preceding
               then (let month' = month - 1;
                         preceding' = preceding
                            - (DAYS_IN_MONTH month' + (if month' = 2 \<and> leapyear then 1 else 0))
                     in (year, month', n - preceding' + 1))
               else (year, month, n - preceding + 1)))"

definition isoformat :: "nat \<Rightarrow> string" where
  "isoformat ordinal =
     (case ord2ymd ordinal of
        (y, m, d) \<Rightarrow> zfill 4 (str_nat y) @ ''-'' @ zfill 2 (str_nat m) @ ''-'' @ zfill 2 (str_nat d))"

text \<open>
  \<^verbatim>\<open>today - timedelta(days=i)\<close>: Python raises \<open>OverflowError\<close> when the result is before
  \<^verbatim>\<open>date.min\<close>.
\<close>

definition date_minus_days :: "nat \<Rightarrow> nat \<Rightarrow> error + nat" where
  "date_minus_days today i = (if today \<le> i then Inl OverflowError else Inr (today - i))"

text \<open>A list comprehension whose element expression may raise: the first exception ends it.\<close>

fun try_map :: "('a \<Rightarrow> error + 'b) \<Rightarrow> 'a list \<Rightarrow> error + 'b list" where
  "try_map f [] = Inr []"
| "try_map f (x # xs) =
     (case f x of
        Inl e \<Rightarrow> Inl e
      | Inr y \<Rightarrow> (case try_map f xs of Inl e \<Rightarrow> Inl e | Inr ys \<Rightarrow> Inr (y # ys)))"

section \<open>The world outside the handlers\<close>

text \<open>
  Everything a run reads from outside: the clock, the secret store
  (\<^verbatim>\<open>get_secret_value(...)["SecretString"]\<close> or the exception it raises), the market data
  API, and whether DynamoDB raises on a write or on a batch read.  \<open>served\<close> lists the
  keys a batch read answers, in the order of the answer; any other requested key comes
  back unprocessed.
\<close>

record world =
  today :: nat
  now_utc :: string
  secret :: "error + string"
  net :: "string \<Rightarrow> nat \<Rightarrow> outcome"
  put_error :: "error option"
  get_error :: "error option"
  served :: "string list"

text \<open>
  Modelled from the spec: the table behind the Storage Accessor, which is DynamoDB and not
  code of this repository.  A table is the list of its items; its key is the attribute
  \<^verbatim>\<open>date\<close>.  \<open>put_item\<close> is \<open>putMover\<close>, an unconditional upsert keyed by date, and
  \<open>batch_get_item\<close> is \<open>batchGet\<close>: the projected fields of the items found under the
  requested keys that the backend serves.
\<close>

definition put_item :: "item list \<Rightarrow> item \<Rightarrow> item list" where
  "put_item table it = it # filter (\<lambda>old. map_of old ''date'' \<noteq> map_of it ''date'') table"

definition get_item :: "item list \<Rightarrow> string \<Rightarrow> item option" where
  "get_item table d = find (\<lambda>it. map_of it ''date'' = Some (DStr d)) table"

definition projection :: "item \<Rightarrow> item" where
  "projection it =
     filter (\<lambda>kv. fst kv \<in> set [''date'', ''ticker'', ''percent_change'', ''closing_price'']) it"

definition batch_get_item :: "item list \<Rightarrow> string list \<Rightarrow> string list \<Rightarrow> item list" where
  "batch_get_item table answered keys =
     List.map_filter
       (\<lambda>d. if d \<in> set keys then map_option projection (get_item table d) else None)
       (remdups answered)"

section \<open>Ingestion: the handler\<close>

text \<open>\<^verbatim>\<open>s.strip()\<close>\<close>

definition is_space :: "char \<Rightarrow> bool" where
  "is_space c =
     (c \<in> set [CHR '' '', CHR 0x09, CHR 0x0A, CHR 0x0B, CHR 0x0C, CHR 0x0D,
                CHR 0x1C, CHR 0x1D, CHR 0x1E, CHR 0x1F])"

definition py_strip :: "string \<Rightarrow> string" where
  "py_strip s = rev (dropWhile is_space (rev (dropWhile is_space s)))"

text \<open>
  \<^verbatim>\<open>get_api_key\<close> logs a \<^verbatim>\<open>ClientError\<close> and raises it again; any other exception passes
  through as it is.
\<close>

definition get_api_key :: "world \<Rightarrow> error + string" where
  "get_api_key w = (case secret w of Inl e \<Rightarrow> Inl e | Inr s \<Rightarrow> Inr (py_strip s))"

text \<open>The \<^verbatim>\<open>Item\<close> that \<^verbatim>\<open>write_winner\<close> hands to \<^verbatim>\<open>table.put_item\<close>.\<close>

definition winner_item :: "world \<Rightarrow> string \<Rightarrow> string \<Rightarrow> real \<Rightarrow> real \<Rightarrow> item" where
  "winner_item w trade_date tk pct close =
     [(''date'', DStr trade_date),
      (''ticker'', DStr tk),
      (''percent_change'', DStr (py_str_decimal 4 (py_round pct 4))),
      (''closing_price'', DStr (py_str_decimal 2 (py_round close 2))),
      (''ingested_at'', DStr (now_utc w))]"

text \<open>
  \<^verbatim>\<open>write_winner\<close>: one call of \<^verbatim>\<open>put_item\<close>; a \<^verbatim>\<open>ClientError\<close> is logged and raised
  again.  The result is the exception if any, the calls made and the table afterwards.
\<close>

definition write_winner ::
  "world \<Rightarrow> item list \<Rightarrow> string \<Rightarrow> string \<Rightarrow> real \<Rightarrow> real \<Rightarrow> error option \<times> event list \<times> item list" where
  "write_winner w table trade_date tk pct close =
     (let it = winner_item w trade_date tk pct close
      in case put_error w of
           Some e \<Rightarrow> (Some e, [PutItem it], table)
         | None \<Rightarrow> (None, [PutItem it], put_item table it))"

text \<open>What a handler returns to Lambda.\<close>

record mover =
  m_date :: attr
  m_ticker :: attr
  m_percent_change :: real
  m_closing_price :: real

datatype body =
    Text string
  | NoDataBody string string
  | SummaryBody string string real real nat "string list"
  | MoversBody "mover list" nat
  | ErrorBody string error

record response =
  statusCode :: nat
  body :: body

text \<open>The loop \<^verbatim>\<open>for ticker in WATCHLIST\<close> of \<^verbatim>\<open>main\<close>, with the lists it appends to.\<close>

record run_state =
  results :: "result list"
  failed_tickers :: "string list"
  events :: "event list"

fun fetch_all ::
  "(string \<Rightarrow> nat \<Rightarrow> outcome) \<Rightarrow> string list \<Rightarrow> run_state \<Rightarrow> error option \<times> run_state" where
  "fetch_all nt [] st = (None, st)"
| "fetch_all nt (tk # tks) st =
     (case fetch_ticker nt tk of
        (data, evs) \<Rightarrow>
          (let st1 = st\<lparr>events := events st @ evs @ [Sleep RETRY_DELAY]\<rparr>
           in case data of
                None \<Rightarrow> fetch_all nt tks (st1\<lparr>failed_tickers := failed_tickers st1 @ [tk]\<rparr>)
              | Some q \<Rightarrow>
                  (case calculate_pct_change (O_price q) (C_price q) of
                     Inl e \<Rightarrow> (Some e, st1)
                   | Inr pct \<Rightarrow>
                       fetch_all nt tks
                         (st1\<lparr>results := results st1
                               @ [\<lparr>ticker = tk, pct_change = pct, closing_price = C_price q\<rparr>]\<rparr>))))"

definition no_data_message :: string where
  "no_data_message =
     ''No data '' @ [CHR 0xE2, CHR 0x80, CHR 0x94] @ '' market closed or API unavailable''"

text \<open>
  \<^verbatim>\<open>main(event, context)\<close> of the ingestion Lambda, on the table before the run.  The
  result is what the invoker gets (the returned response, or the exception that leaves
  \<^verbatim>\<open>main\<close>), the calls made, and the table afterwards.
\<close>

definition ingestion_main :: "world \<Rightarrow> item list \<Rightarrow> (error + response) \<times> event list \<times> item list" where
  "ingestion_main w table =
     (let trade_date = isoformat (today w)
      in case get_api_key w of
           Inl e \<Rightarrow>
             (Inr \<lparr>statusCode = 500, body = Text ''Failed to retrieve API key''\<rparr>, [GetSecret], table)
         | Inr api_key \<Rightarrow>
             (case fetch_all (net w) WATCHLIST
                     \<lparr>results = [], failed_tickers = [], events = [GetSecret]\<rparr> of
                (Some e, st) \<Rightarrow> (Inl e, events st, table)
              | (None, st) \<Rightarrow>
                  if results st = [] then
                    (Inr \<lparr>statusCode = 200, body = NoDataBody no_data_message trade_date\<rparr>,
                     events st, table)
                  else
                    (case select_winner (results st) of
                       Inl e \<Rightarrow> (Inl e, events st, table)
                     | Inr winner \<Rightarrow>
                         (case write_winner w table trade_date (ticker winner)
                                 (pct_change winner) (closing_price winner) of
                            (Some e, evs, table') \<Rightarrow> (Inl e, events st @ evs, table')
                          | (None, evs, table') \<Rightarrow>
                              (Inr \<lparr>statusCode = 200,
                                    body = SummaryBody trade_date (ticker winner)
                                      (py_round (pct_change winner) 4)
                                      (py_round (closing_price winner) 2)
                                      (length (results st)) (failed_tickers st)\<rparr>,
                               events st @ evs, table')))))"

section \<open>Query: the handler\<close>

definition DAYS_TO_RETURN :: nat where
  "DAYS_TO_RETURN = 7"

definition CORS_HEADERS :: "(string \<times> string) list" where
  "CORS_HEADERS =
     [(''Access-Control-Allow-Origin'', ''*''),
      (''Access-Control-Allow-Headers'', ''Content-Type''),
      (''Access-Control-Allow-Methods'', ''GET,OPTIONS''),
      (''Content-Type'', ''application/json'')]"

record api_response = response +
  headers :: "(string \<times> string) list"

text \<open>
  \<^verbatim>\<open>def get_date_range(days):
      today = date.today()
      return [(today - timedelta(days=i)).isoformat() for i in range(days)]\<close>
\<close>

definition get_date_range :: "world \<Rightarrow> nat \<Rightarrow> error + string list" where
  "get_date_range w days =
     try_map (\<lambda>i. case date_minus_days (today w) i of
                     Inl e \<Rightarrow> Inl e
                   | Inr d \<Rightarrow> Inr (isoformat d))
       [0 ..< days]"

text \<open>
  \<^verbatim>\<open>query_movers\<close>: no call for an empty range; otherwise one \<^verbatim>\<open>batch_get_item\<close>, whose
  exception is logged and raised again.  Unprocessed keys are logged only.
\<close>

definition query_movers :: "world \<Rightarrow> item list \<Rightarrow> string list \<Rightarrow> (error + item list) \<times> event list" where
  "query_movers w table date_range =
     (if date_range = [] then (Inr [], [])
      else (case get_error w of
              Some e \<Rightarrow> (Inl e, [BatchGetItem date_range])
            | None \<Rightarrow>
                (Inr (batch_get_item table (served w) date_range), [BatchGetItem date_range])))"

text \<open>\<^verbatim>\<open>float(x)\<close> on an attribute value.\<close>

fun float_attr :: "attr \<Rightarrow> error + real" where
  "float_attr (DStr s) = py_float_str s"
| "float_attr (DNum x) = Inr x"
| "float_attr DNull = Inl TypeError"

text \<open>
  \<^verbatim>\<open>def format_item(item):
      return {
          "date": item["date"],
          "ticker": item["ticker"],
          "percent_change": round(float(item.get("percent_change", 0)), 2),
          "closing_price": round(float(item.get("closing_price", 0)), 2),
      }\<close>
\<close>

definition format_item :: "item \<Rightarrow> error + mover" where
  "format_item it =
     (case map_of it ''date'' of
        None \<Rightarrow> Inl KeyError
      | Some d \<Rightarrow>
          (case map_of it ''ticker'' of
             None \<Rightarrow> Inl KeyError
           | Some t \<Rightarrow>
               (case float_attr (case map_of it ''percent_change'' of None \<Rightarrow> DNum 0 | Some v \<Rightarrow> v) of
                  Inl e \<Rightarrow> Inl e
                | Inr p \<Rightarrow>
                    (case float_attr (case map_of it ''closing_price'' of None \<Rightarrow> DNum 0 | Some v \<Rightarrow> v) of
                       Inl e \<Rightarrow> Inl e
                     | Inr c \<Rightarrow>
                         Inr \<lparr>m_date = d, m_ticker = t,
                              m_percent_change = py_round p 2,
                              m_closing_price = py_round c 2\<rparr>))))"

text \<open>
  \<^verbatim>\<open>sorted(xs, key=..., reverse=True)\<close> on keys that are attribute values: a stable sort
  into descending order, in which equal keys keep their order.  Strings compare with
  strings and numbers with numbers; any other comparison raises \<open>TypeError\<close>, and a list of
  two or more elements cannot be sorted without comparing every element with another.
\<close>

fun is_DStr :: "attr \<Rightarrow> bool" where
  "is_DStr (DStr s) = True"
| "is_DStr _ = False"

fun is_DNum :: "attr \<Rightarrow> bool" where
  "is_DNum (DNum x) = True"
| "is_DNum _ = False"

fun str_of :: "attr \<Rightarrow> string" where
  "str_of (DStr s) = s"
| "str_of _ = []"

fun num_of :: "attr \<Rightarrow> real" where
  "num_of (DNum x) = x"
| "num_of _ = 0"

definition sort_desc :: "('a \<Rightarrow> 'k::linorder) \<Rightarrow> 'a list \<Rightarrow> 'a list" where
  "sort_desc key xs = rev (sort_key key (rev xs))"

definition py_sorted_reverse :: "('a \<Rightarrow> attr) \<Rightarrow> 'a list \<Rightarrow> error + 'a list" where
  "py_sorted_reverse key xs =
     (if length xs \<le> 1 then Inr xs
      else if list_all (\<lambda>x. is_DStr (key x)) xs then Inr (sort_desc (\<lambda>x. str_of (key x)) xs)
      else if list_all (\<lambda>x. is_DNum (key x)) xs then Inr (sort_desc (\<lambda>x. num_of (key x)) xs)
      else Inl TypeError)"

text \<open>The API Gateway event, of which \<^verbatim>\<open>main\<close> reads \<^verbatim>\<open>event.get("httpMethod")\<close>.\<close>

record request =
  httpMethod :: "string option"

definition internal_error :: "error \<Rightarrow> api_response" where
  "internal_error e =
     \<lparr>statusCode = 500, body = ErrorBody ''Internal server error'' e, headers = CORS_HEADERS\<rparr>"

text \<open>
  \<^verbatim>\<open>main(event, context)\<close> of the query Lambda: the response and the calls made to the
  table.  \<open>internal_error e\<close> is the \<^verbatim>\<open>except Exception as e\<close> clause, whose body carries
  \<^verbatim>\<open>str(e)\<close> as its message.
\<close>

text \<open>
  \<^verbatim>\<open>sorted([format_item(item) for item in items], key=lambda x: x["date"], reverse=True)\<close>
\<close>

definition format_movers :: "item list \<Rightarrow> error + mover list" where
  "format_movers items =
     (case try_map format_item items of
        Inl e \<Rightarrow> Inl e
      | Inr formatted \<Rightarrow> py_sorted_reverse m_date formatted)"

definition query_main :: "world \<Rightarrow> request \<Rightarrow> item list \<Rightarrow> api_response \<times> event list" where
  "query_main w req table =
     (if httpMethod req = Some ''OPTIONS'' then
        (\<lparr>statusCode = 200, body = Text [], headers = CORS_HEADERS\<rparr>, [])
      else
        (case get_date_range w DAYS_TO_RETURN of
           Inl e \<Rightarrow> (internal_error e, [])
         | Inr date_range \<Rightarrow>
             (case query_movers w table date_range of
                (Inl e, evs) \<Rightarrow> (internal_error e, evs)
              | (Inr items, evs) \<Rightarrow>
                  (case format_movers items of
                     Inl e \<Rightarrow> (internal_error e, evs)
                   | Inr movers \<Rightarrow>
                       (\<lparr>statusCode = 200, body = MoversBody movers (length movers),
                         headers = CORS_HEADERS\<rparr>, evs)))))"

fun is_BatchGetItem :: "event \<Rightarrow> bool" where
  "is_BatchGetItem (BatchGetItem ks) = True"
| "is_BatchGetItem _ = False"

section \<open>Example worlds\<close>

text \<open>
  10 June 2025 is day 739412.  In \<open>world_closed\<close> the market is closed (every ticker has
  an empty result set), in \<open>world_no_secret\<close> the secret store refuses the key, in
  \<open>world_put_fails\<close> every ticker opens at 200 and closes at 190 and DynamoDB refuses the
  write, and in \<open>world_busy\<close> AAPL rises by 1 percent, MSFT falls by 5 percent and the other
  tickers have no data.
\<close>

definition world_closed :: world where
  "world_closed =
     \<lparr>today = 739412, now_utc = ''2025-06-10T21:00:05+00:00'', secret = Inr ''key'',
      net = (\<lambda>tk a. Response 200 empty_body),
      put_error = None, get_error = None, served = []\<rparr>"

definition world_no_secret :: world where
  "world_no_secret = world_closed\<lparr>secret := Inl ClientError\<rparr>"

definition world_put_fails :: world where
  "world_put_fails =
     world_closed\<lparr>net := (\<lambda>tk a. Response 200 (bar_body 200 190)), put_error := Some ClientError\<rparr>"

definition world_busy :: world where
  "world_busy =
     world_closed\<lparr>net := (\<lambda>tk a.
        if tk = ''AAPL'' then Response 200 (bar_body 100 101)
        else if tk = ''MSFT'' then Response 200 (bar_body 200 190)
        else Response 200 empty_body)\<rparr>"

text \<open>
  A table with the movers of 7 June, 10 June and 1 May 2025, read on 10 June 2025 by a
  backend that answers the key of 7 June before the key of 10 June.
\<close>

definition table_june :: "item list" where
  "table_june =
     [[(''date'', DStr ''2025-06-07''), (''ticker'', DStr ''AAPL''),
       (''percent_change'', DStr ''1.2346''), (''closing_price'', DStr ''211.5''),
       (''ingested_at'', DStr ''2025-06-07T21:00:04+00:00'')],
      [(''date'', DStr ''2025-06-10''), (''ticker'', DStr ''MSFT''),
       (''percent_change'', DStr ''-5.0''), (''closing_price'', DStr ''190.0''),
       (''ingested_at'', DStr ''2025-06-10T21:00:05+00:00'')],
      [(''date'', DStr ''2025-05-01''), (''ticker'', DStr ''NVDA''),
       (''percent_change'', DStr ''3.1''), (''closing_price'', DStr ''111.0''),
       (''ingested_at'', DStr ''2025-05-01T21:00:05+00:00'')]]"

definition world_query :: world where
  "world_query = world_closed\<lparr>served := [''2025-06-07'', ''2025-06-10'', ''2025-06-09'', ''2025-05-01'']\<rparr>"

text \<open>
  The same reader when DynamoDB raises on the batch read, and a table in which the record
  of 10 June 2025 has no ticker and the record of 9 June 2025 has no numbers.
\<close>

definition world_db_down :: world where
  "world_db_down = world_query\<lparr>get_error := Some ClientError\<rparr>"

definition table_no_ticker :: "item list" where
  "table_no_ticker =
     [[(''date'', DStr ''2025-06-07''), (''ticker'', DStr ''AAPL''),
       (''percent_change'', DStr ''1.2346''), (''closing_price'', DStr ''211.5'')],
      [(''date'', DStr ''2025-06-10''),
       (''percent_change'', DStr ''-5.0''), (''closing_price'', DStr ''190.0'')]]"

definition item_no_numbers :: item where
  "item_no_numbers = [(''date'', DStr ''2025-06-09''), (''ticker'', DStr ''TSLA'')]"

section \<open>Properties of the mover calculator\<close>

lemma max_loop_index:
  "\<exists>i < Suc (length xs).
     max_loop key best xs = (best # xs) ! i
     \<and> (\<forall>j < Suc (length xs). key ((best # xs) ! j) \<le> key ((best # xs) ! i))
     \<and> (\<forall>j < i. key ((best # xs) ! j) < key ((best # xs) ! i))"
proof (induction xs arbitrary: best)
  case Nil
  show ?case by simp
next
  case (Cons x xs)
  show ?case
  proof (cases "key best < key x")
    case True
    from Cons.IH [of x] obtain i where i: "i < Suc (length xs)"
      and sel: "max_loop key x xs = (x # xs) ! i"
      and top: "\<forall>j < Suc (length xs). key ((x # xs) ! j) \<le> key ((x # xs) ! i)"
      and fst: "\<forall>j < i. key ((x # xs) ! j) < key ((x # xs) ! i)"
      by blast
    from top have xi: "key x \<le> key ((x # xs) ! i)" by (metis nth_Cons_0 zero_less_Suc)
    have a: "max_loop key best (x # xs) = (best # x # xs) ! Suc i"
      using True sel by simp
    have b: "key ((best # x # xs) ! j) \<le> key ((best # x # xs) ! Suc i)"
      if "j < Suc (length (x # xs))" for j
    proof (cases j)
      case 0
      then show ?thesis using True xi by simp
    next
      case (Suc k)
      then show ?thesis using top that by simp
    qed
    have c: "key ((best # x # xs) ! j) < key ((best # x # xs) ! Suc i)" if "j < Suc i" for j
    proof (cases j)
      case 0
      then show ?thesis using True xi by simp
    next
      case (Suc k)
      then show ?thesis using fst that by simp
    qed
    from i a b c show ?thesis
      by (intro exI [of _ "Suc i"]) (simp del: nth_Cons_Suc max_loop.simps)
  next
    case False
    from Cons.IH [of best] obtain i where i: "i < Suc (length xs)"
      and sel: "max_loop key best xs = (best # xs) ! i"
      and top: "\<forall>j < Suc (length xs). key ((best # xs) ! j) \<le> key ((best # xs) ! i)"
      and fst: "\<forall>j < i. key ((best # xs) ! j) < key ((best # xs) ! i)"
      by blast
    from top have bi: "key best \<le> key ((best # xs) ! i)" by (metis nth_Cons_0 zero_less_Suc)
    show ?thesis
    proof (cases i)
      case 0
      have a: "max_loop key best (x # xs) = (best # x # xs) ! 0"
        using False sel 0 by simp
      have b: "key ((best # x # xs) ! j) \<le> key ((best # x # xs) ! 0)"
        if "j < Suc (length (x # xs))" for j
      proof (cases j)
        case 0
        then show ?thesis by simp
      next
        case (Suc k)
        note j = Suc
        show ?thesis
        proof (cases k)
          case 0
          then show ?thesis using j False by simp
        next
          case (Suc m)
          then show ?thesis using j top that \<open>i = 0\<close> by (auto dest: spec [of _ "Suc m"])
        qed
      qed
      from a b show ?thesis by (intro exI [of _ 0]) simp
    next
      case (Suc n)
      have a: "max_loop key best (x # xs) = (best # x # xs) ! Suc i"
        using False sel Suc by simp
      have lt: "key best < key ((best # xs) ! i)"
        using fst Suc by (metis nth_Cons_0 zero_less_Suc)
      have b: "key ((best # x # xs) ! j) \<le> key ((best # x # xs) ! Suc i)"
        if "j < Suc (length (x # xs))" for j
      proof (cases j)
        case 0
        then show ?thesis using bi Suc by simp
      next
        case (Suc k)
        note j = Suc
        show ?thesis
        proof (cases k)
          case 0
          then show ?thesis using j False lt \<open>i = Suc n\<close> by simp
        next
          case (Suc m)
          then show ?thesis using j top that \<open>i = Suc n\<close> by (auto dest: spec [of _ "Suc m"])
        qed
      qed
      have c: "key ((best # x # xs) ! j) < key ((best # x # xs) ! Suc i)" if "j < Suc i" for j
      proof (cases j)
        case 0
        then show ?thesis using lt Suc by simp
      next
        case (Suc k)
        note j = Suc
        show ?thesis
        proof (cases k)
          case 0
          then show ?thesis using j False lt \<open>i = Suc n\<close> by simp
        next
          case (Suc m)
          then show ?thesis using j fst that \<open>i = Suc n\<close> by (auto dest: spec [of _ "Suc m"])
        qed
      qed
      from i a b c show ?thesis
        by (intro exI [of _ "Suc i"]) (simp del: nth_Cons_Suc max_loop.simps)
    qed
  qed
qed


text \<open>
  Claim C1.  For every non-empty list of successful quotes the run's winner is an entry
  of the list whose absolute percent change is the largest, and every entry before it in
  the list has a strictly smaller absolute percent change: among the entries that attain
  the maximum it is the earliest in watchlist order.
\<close>

theorem select_winner_first_max:
  assumes "rs \<noteq> []"
  shows "\<exists>i < length rs.
           select_winner rs = Inr (rs ! i)
           \<and> (\<forall>j < length rs. \<bar>pct_change (rs ! j)\<bar> \<le> \<bar>pct_change (rs ! i)\<bar>)
           \<and> (\<forall>j < i. \<bar>pct_change (rs ! j)\<bar> < \<bar>pct_change (rs ! i)\<bar>)"
proof -
  from assms obtain r rest where rs: "rs = r # rest" by (cases rs) auto
  have sel: "select_winner (r # rest) = Inr (max_loop (\<lambda>x. \<bar>pct_change x\<bar>) r rest)"
    by (simp add: select_winner_def py_max_def)
  have len: "length (r # rest) = Suc (length rest)" by simp
  from max_loop_index [of rest "\<lambda>x. \<bar>pct_change x\<bar>" r] show ?thesis
    unfolding rs sel len by blast
qed

theorem select_winner_first_max_witness:
  "[\<lparr>ticker = ''AAPL'', pct_change = 1, closing_price = 101\<rparr>,
    \<lparr>ticker = ''MSFT'', pct_change = - 5, closing_price = 190\<rparr>,
    \<lparr>ticker = ''TSLA'', pct_change = 5, closing_price = 10\<rparr>] \<noteq> []
   \<and> select_winner
        [\<lparr>ticker = ''AAPL'', pct_change = 1, closing_price = 101\<rparr>,
         \<lparr>ticker = ''MSFT'', pct_change = - 5, closing_price = 190\<rparr>,
         \<lparr>ticker = ''TSLA'', pct_change = 5, closing_price = 10\<rparr>]
       = Inr \<lparr>ticker = ''MSFT'', pct_change = - 5, closing_price = 190\<rparr>"
  using select_winner_first_max
    [of "[\<lparr>ticker = ''AAPL'', pct_change = 1, closing_price = 101\<rparr>,
          \<lparr>ticker = ''MSFT'', pct_change = - 5, closing_price = 190\<rparr>,
          \<lparr>ticker = ''TSLA'', pct_change = 5, closing_price = 10\<rparr>]"]
  by (simp add: select_winner_def py_max_def)




section \<open>Properties of the market data client\<close>

lemma attempts_eq: "[1 ..< MAX_RETRIES + 2] = [1, 2, 3]"
  by (simp add: MAX_RETRIES_def upt_rec)

lemma fetch_loop_step:
  "fetch_loop nt tk (a # rest) =
     (if spec_transient (nt tk a)
      then (fst (fetch_loop nt tk rest),
            HttpGet tk a # Sleep (spec_retry_delay a (nt tk a)) # snd (fetch_loop nt tk rest))
      else (attempt_result (nt tk a), [HttpGet tk a]))"
  by (cases "nt tk a") (auto split: prod.splits sum.splits)

lemma fetch_ticker_cases:
  "fetch_ticker nt tk =
     (if \<not> spec_transient (nt tk 1) then (attempt_result (nt tk 1), [HttpGet tk 1])
      else if \<not> spec_transient (nt tk 2) then
        (attempt_result (nt tk 2),
         [HttpGet tk 1, Sleep (spec_retry_delay 1 (nt tk 1)), HttpGet tk 2])
      else if \<not> spec_transient (nt tk 3) then
        (attempt_result (nt tk 3),
         [HttpGet tk 1, Sleep (spec_retry_delay 1 (nt tk 1)),
          HttpGet tk 2, Sleep (spec_retry_delay 2 (nt tk 2)), HttpGet tk 3])
      else
        (None,
         [HttpGet tk 1, Sleep (spec_retry_delay 1 (nt tk 1)),
          HttpGet tk 2, Sleep (spec_retry_delay 2 (nt tk 2)),
          HttpGet tk 3, Sleep (spec_retry_delay 3 (nt tk 3))]))"
  unfolding fetch_ticker_def attempts_eq
  by (simp add: fetch_loop_step del: fetch_loop.simps(2))

lemma on_status_200_lowercase_bar:
  "on_status_200 (bar_body op cl)
     = Inr (if op = 0 \<or> cl = 0 then None else Some \<lparr>O_price = op, C_price = cl\<rparr>)"
  by (simp add: on_status_200_def bar_body_def get_either_def)

text \<open>
  Claim C3 (the code departs from it).  A 200 response whose first result has open 10 and
  close 0 has a non-empty result set, both fields present and an open price other than 0,
  so the claim promises the quote with open 10 and close 0.  \<open>fetch_ticker\<close> returns
  absent after one request: \<^verbatim>\<open>bar.get("c") or bar.get("C")\<close> takes the close price 0 for
  a missing field.
\<close>

theorem fetch_ticker_zero_close_absent:
  "fetch_ticker
     (\<lambda>tk a. Response 200
        (Some (JObj [(''results'', JArr [JObj [(''o'', JNum 10), (''c'', JNum 0)]])])))
     ''AAPL''
   = (None, [HttpGet ''AAPL'' 1])"
  by (simp add: fetch_ticker_cases on_status_200_lowercase_bar [unfolded bar_body_def])


lemma fetch_ticker_policy_general:
  assumes "fetch_ticker nt tk = (r, evs)"
  shows "length (filter is_HttpGet evs) \<le> 3"
    and "HttpGet tk a \<in> set evs \<Longrightarrow> a \<in> {1, 2, 3}"
    and "HttpGet tk a \<in> set evs \<Longrightarrow> 1 \<le> b \<Longrightarrow> b < a \<Longrightarrow> spec_transient (nt tk b)"
    and "HttpGet tk a \<in> set evs \<Longrightarrow>
           next_event evs (HttpGet tk a)
             = (if spec_transient (nt tk a) then Some (Sleep (spec_retry_delay a (nt tk a))) else None)"
    and "HttpGet tk a \<in> set evs \<Longrightarrow> \<not> spec_transient (nt tk a) \<Longrightarrow> r = attempt_result (nt tk a)"
    and "HttpGet tk a \<in> set evs \<Longrightarrow> spec_transient (nt tk a) \<Longrightarrow> a < 3 \<Longrightarrow> HttpGet tk (Suc a) \<in> set evs"
    and "HttpGet tk a \<in> set evs \<Longrightarrow> spec_transient (nt tk a) \<Longrightarrow> a = 3 \<Longrightarrow> r = None"
proof -
  consider (c1) "\<not> spec_transient (nt tk 1)"
    | (c2) "spec_transient (nt tk 1)" "\<not> spec_transient (nt tk 2)"
    | (c3) "spec_transient (nt tk 1)" "spec_transient (nt tk 2)" "\<not> spec_transient (nt tk 3)"
    | (c4) "spec_transient (nt tk 1)" "spec_transient (nt tk 2)" "spec_transient (nt tk 3)"
    by blast
  then have shape:
    "(r = attempt_result (nt tk 1) \<and> evs = [HttpGet tk 1] \<and> \<not> spec_transient (nt tk 1))
     \<or> (r = attempt_result (nt tk 2) \<and> spec_transient (nt tk 1) \<and> \<not> spec_transient (nt tk 2)
         \<and> evs = [HttpGet tk 1, Sleep (spec_retry_delay 1 (nt tk 1)), HttpGet tk 2])
     \<or> (r = attempt_result (nt tk 3) \<and> spec_transient (nt tk 1) \<and> spec_transient (nt tk 2)
         \<and> \<not> spec_transient (nt tk 3)
         \<and> evs = [HttpGet tk 1, Sleep (spec_retry_delay 1 (nt tk 1)),
                   HttpGet tk 2, Sleep (spec_retry_delay 2 (nt tk 2)), HttpGet tk 3])
     \<or> (r = None \<and> spec_transient (nt tk 1) \<and> spec_transient (nt tk 2) \<and> spec_transient (nt tk 3)
         \<and> evs = [HttpGet tk 1, Sleep (spec_retry_delay 1 (nt tk 1)),
                   HttpGet tk 2, Sleep (spec_retry_delay 2 (nt tk 2)),
                   HttpGet tk 3, Sleep (spec_retry_delay 3 (nt tk 3))])"
    using assms by cases (simp_all add: fetch_ticker_cases)
  show "length (filter is_HttpGet evs) \<le> 3" using shape by auto
  show "HttpGet tk a \<in> set evs \<Longrightarrow> a \<in> {1, 2, 3}" using shape by auto
  show "HttpGet tk a \<in> set evs \<Longrightarrow> 1 \<le> b \<Longrightarrow> b < a \<Longrightarrow> spec_transient (nt tk b)"
  proof -
    assume h: "HttpGet tk a \<in> set evs" "1 \<le> b" "b < a"
    have "b = 1 \<or> b = 2 \<or> 3 \<le> b" using h(2) by arith
    then show ?thesis using shape h by auto
  qed
  show "HttpGet tk a \<in> set evs \<Longrightarrow>
           next_event evs (HttpGet tk a)
             = (if spec_transient (nt tk a) then Some (Sleep (spec_retry_delay a (nt tk a))) else None)"
    using shape by (auto simp: next_event_def)
  show "HttpGet tk a \<in> set evs \<Longrightarrow> \<not> spec_transient (nt tk a) \<Longrightarrow> r = attempt_result (nt tk a)"
    using shape by auto
  show "HttpGet tk a \<in> set evs \<Longrightarrow> spec_transient (nt tk a) \<Longrightarrow> a < 3 \<Longrightarrow> HttpGet tk (Suc a) \<in> set evs"
    using shape by (auto simp: numeral_2_eq_2 numeral_3_eq_3)
  show "HttpGet tk a \<in> set evs \<Longrightarrow> spec_transient (nt tk a) \<Longrightarrow> a = 3 \<Longrightarrow> r = None"
    using shape by auto
qed

text \<open>
  Claim C4.  In every run of \<open>fetch_ticker\<close>: at most \<open>MAX_RETRIES + 1\<close> requests are made;
  a request after the first is made only when every earlier attempt ended in HTTP 429,
  HTTP 500/502/503/504 or a timeout; after a 429 the next thing done is a sleep of the base
  delay times \<open>2^(attempt - 1)\<close>, after a 500/502/503/504 or a timeout a sleep of the base
  delay, and then the next attempt follows while the budget lasts; once the budget is used
  up the result is absent; after any other status and after a connection failure nothing
  more is done, and unless the status was 200 the result is absent.
\<close>

theorem fetch_ticker_retry_policy:
  assumes "fetch_ticker nt tk = (r, evs)"
  shows "length (filter is_HttpGet evs) \<le> MAX_RETRIES + 1
    \<and> (\<forall>a. HttpGet tk a \<in> set evs \<longrightarrow>
          1 \<le> a \<and> a \<le> MAX_RETRIES + 1
          \<and> (\<forall>b. 1 \<le> b \<and> b < a \<longrightarrow> spec_transient (nt tk b))
          \<and> (case nt tk a of
                Response c bd \<Rightarrow>
                  if c = 429 then
                    next_event evs (HttpGet tk a) = Some (Sleep (RETRY_DELAY * 2 ^ (a - 1)))
                  else if c \<in> {500, 502, 503, 504} then
                    next_event evs (HttpGet tk a) = Some (Sleep RETRY_DELAY)
                  else next_event evs (HttpGet tk a) = None \<and> (c \<noteq> 200 \<longrightarrow> r = None)
              | RaisesTimeout \<Rightarrow> next_event evs (HttpGet tk a) = Some (Sleep RETRY_DELAY)
              | RaisesConnectionError \<Rightarrow> next_event evs (HttpGet tk a) = None \<and> r = None
              | RaisesOther \<Rightarrow> next_event evs (HttpGet tk a) = None \<and> r = None)
          \<and> (spec_transient (nt tk a) \<and> a < MAX_RETRIES + 1 \<longrightarrow> HttpGet tk (Suc a) \<in> set evs)
          \<and> (spec_transient (nt tk a) \<and> a = MAX_RETRIES + 1 \<longrightarrow> r = None))"
proof -
  note g = fetch_ticker_policy_general [OF assms]
  have budget: "length (filter is_HttpGet evs) \<le> MAX_RETRIES + 1"
    using g(1) by (simp add: MAX_RETRIES_def)
  have each: "1 \<le> a \<and> a \<le> MAX_RETRIES + 1
          \<and> (\<forall>b. 1 \<le> b \<and> b < a \<longrightarrow> spec_transient (nt tk b))
          \<and> (case nt tk a of
                Response c bd \<Rightarrow>
                  if c = 429 then
                    next_event evs (HttpGet tk a) = Some (Sleep (RETRY_DELAY * 2 ^ (a - 1)))
                  else if c \<in> {500, 502, 503, 504} then
                    next_event evs (HttpGet tk a) = Some (Sleep RETRY_DELAY)
                  else next_event evs (HttpGet tk a) = None \<and> (c \<noteq> 200 \<longrightarrow> r = None)
              | RaisesTimeout \<Rightarrow> next_event evs (HttpGet tk a) = Some (Sleep RETRY_DELAY)
              | RaisesConnectionError \<Rightarrow> next_event evs (HttpGet tk a) = None \<and> r = None
              | RaisesOther \<Rightarrow> next_event evs (HttpGet tk a) = None \<and> r = None)
          \<and> (spec_transient (nt tk a) \<and> a < MAX_RETRIES + 1 \<longrightarrow> HttpGet tk (Suc a) \<in> set evs)
          \<and> (spec_transient (nt tk a) \<and> a = MAX_RETRIES + 1 \<longrightarrow> r = None)"
    if h: "HttpGet tk a \<in> set evs" for a
  proof -
    have r1: "1 \<le> a \<and> a \<le> MAX_RETRIES + 1" using g(2) [OF h] by (auto simp: MAX_RETRIES_def)
    have r2: "\<forall>b. 1 \<le> b \<and> b < a \<longrightarrow> spec_transient (nt tk b)" using g(3) [OF h] by blast
    have r3: "case nt tk a of
                Response c bd \<Rightarrow>
                  if c = 429 then
                    next_event evs (HttpGet tk a) = Some (Sleep (RETRY_DELAY * 2 ^ (a - 1)))
                  else if c \<in> {500, 502, 503, 504} then
                    next_event evs (HttpGet tk a) = Some (Sleep RETRY_DELAY)
                  else next_event evs (HttpGet tk a) = None \<and> (c \<noteq> 200 \<longrightarrow> r = None)
              | RaisesTimeout \<Rightarrow> next_event evs (HttpGet tk a) = Some (Sleep RETRY_DELAY)
              | RaisesConnectionError \<Rightarrow> next_event evs (HttpGet tk a) = None \<and> r = None
              | RaisesOther \<Rightarrow> next_event evs (HttpGet tk a) = None \<and> r = None"
      using g(4) [OF h] g(5) [OF h] by (cases "nt tk a") auto
    have r4: "spec_transient (nt tk a) \<and> a < MAX_RETRIES + 1 \<longrightarrow> HttpGet tk (Suc a) \<in> set evs"
      using g(6) [OF h] by (simp add: MAX_RETRIES_def)
    have r5: "spec_transient (nt tk a) \<and> a = MAX_RETRIES + 1 \<longrightarrow> r = None"
      using g(7) [OF h] by (auto simp: MAX_RETRIES_def)
    from r1 r2 r3 r4 r5 show ?thesis by blast
  qed
  from budget each show ?thesis by blast
qed

theorem fetch_ticker_retry_policy_witness:
  "fetch_ticker net_rate_limited ''MSFT''
     = (Some \<lparr>O_price = 200, C_price = 190\<rparr>,
        [HttpGet ''MSFT'' 1, Sleep 1, HttpGet ''MSFT'' 2, Sleep 2, HttpGet ''MSFT'' 3])
   \<and> length (filter is_HttpGet
        [HttpGet ''MSFT'' 1, Sleep 1, HttpGet ''MSFT'' 2, Sleep 2, HttpGet ''MSFT'' 3]) \<le> MAX_RETRIES + 1
   \<and> next_event [HttpGet ''MSFT'' 1, Sleep 1, HttpGet ''MSFT'' 2, Sleep 2, HttpGet ''MSFT'' 3]
        (HttpGet ''MSFT'' 2) = Some (Sleep (RETRY_DELAY * 2 ^ (2 - 1)))"
proof -
  have h: "fetch_ticker net_rate_limited ''MSFT''
     = (Some \<lparr>O_price = 200, C_price = 190\<rparr>,
        [HttpGet ''MSFT'' 1, Sleep 1, HttpGet ''MSFT'' 2, Sleep 2, HttpGet ''MSFT'' 3])"
    by (simp add: fetch_ticker_cases net_rate_limited_def on_status_200_lowercase_bar RETRY_DELAY_def)
  from fetch_ticker_retry_policy [OF h] have
    "HttpGet ''MSFT'' 2 \<in> set [HttpGet ''MSFT'' 1, Sleep 1, HttpGet ''MSFT'' 2, Sleep 2, HttpGet ''MSFT'' 3]
      \<longrightarrow> (case net_rate_limited ''MSFT'' 2 of
                Response c bd \<Rightarrow>
                  if c = 429 then
                    next_event [HttpGet ''MSFT'' 1, Sleep 1, HttpGet ''MSFT'' 2, Sleep 2, HttpGet ''MSFT'' 3] (HttpGet ''MSFT'' 2) = Some (Sleep (RETRY_DELAY * 2 ^ (2 - 1)))
                  else True
              | _ \<Rightarrow> True)"
    by (simp add: net_rate_limited_def)
  then have n: "next_event [HttpGet ''MSFT'' 1, Sleep 1, HttpGet ''MSFT'' 2, Sleep 2, HttpGet ''MSFT'' 3]
        (HttpGet ''MSFT'' 2) = Some (Sleep (RETRY_DELAY * 2 ^ (2 - 1)))"
    by (simp add: net_rate_limited_def)
  from fetch_ticker_retry_policy [OF h] have b: "length (filter is_HttpGet
        [HttpGet ''MSFT'' 1, Sleep 1, HttpGet ''MSFT'' 2, Sleep 2, HttpGet ''MSFT'' 3]) \<le> MAX_RETRIES + 1"
    by blast
  from h n b show ?thesis by blast
qed


section \<open>Properties of the ingestion handler\<close>

lemma str_nat_small: "n < 10 \<Longrightarrow> str_nat n = [digit_char n]"
  by (simp add: str_nat.simps)

lemma str_nat_big: "\<not> n < 10 \<Longrightarrow> str_nat n = str_nat (n div 10) @ [digit_char (n mod 10)]"
  by (subst str_nat.simps) simp

lemmas text_eval = str_nat_small str_nat_big digit_char_def zfill_def rstrip_zeros_def

lemma isoformat_739412: "isoformat 739412 = ''2025-06-10''"
  by (simp add: isoformat_def ord2ymd_def Let_def DAYS_BEFORE_MONTH_def DAYS_IN_MONTH_def text_eval)

lemma on_status_200_empty: "on_status_200 empty_body = Inr None"
  by (simp add: on_status_200_def empty_body_def)

lemma run_world_closed: "ingestion_main world_closed [] = (Inr \<lparr>statusCode = 200, body = NoDataBody no_data_message ''2025-06-10''\<rparr>,
   [GetSecret, HttpGet ''AAPL'' 1, Sleep 1, HttpGet ''MSFT'' 1, Sleep 1, HttpGet ''GOOGL'' 1, Sleep 1,
    HttpGet ''AMZN'' 1, Sleep 1, HttpGet ''TSLA'' 1, Sleep 1, HttpGet ''NVDA'' 1, Sleep 1], [])"
  by (simp add: ingestion_main_def world_closed_def get_api_key_def py_strip_def is_space_def WATCHLIST_def
      fetch_ticker_cases on_status_200_empty isoformat_739412 RETRY_DELAY_def Let_def)

lemma run_world_put_fails: "ingestion_main world_put_fails [] = (Inl ClientError,
   [GetSecret, HttpGet ''AAPL'' 1, Sleep 1, HttpGet ''MSFT'' 1, Sleep 1, HttpGet ''GOOGL'' 1, Sleep 1,
    HttpGet ''AMZN'' 1, Sleep 1, HttpGet ''TSLA'' 1, Sleep 1, HttpGet ''NVDA'' 1, Sleep 1,
    PutItem [(''date'', DStr ''2025-06-10''), (''ticker'', DStr ''AAPL''),
       (''percent_change'', DStr ''-5.0''), (''closing_price'', DStr ''190.0''),
       (''ingested_at'', DStr ''2025-06-10T21:00:05+00:00'')]], [])"
  by (simp add: ingestion_main_def world_put_fails_def world_closed_def get_api_key_def py_strip_def is_space_def WATCHLIST_def
      fetch_ticker_cases on_status_200_lowercase_bar isoformat_739412 RETRY_DELAY_def Let_def
      calculate_pct_change_def select_winner_def py_max_def write_winner_def winner_item_def
      py_round_def round_half_even_def py_str_decimal_def str_fixed_def text_eval)

lemma run_world_busy: "ingestion_main world_busy [] = (Inr \<lparr>statusCode = 200, body = SummaryBody ''2025-06-10'' ''MSFT'' (- 5) 190 2 [''GOOGL'', ''AMZN'', ''TSLA'', ''NVDA'']\<rparr>,
   [GetSecret, HttpGet ''AAPL'' 1, Sleep 1, HttpGet ''MSFT'' 1, Sleep 1, HttpGet ''GOOGL'' 1, Sleep 1,
    HttpGet ''AMZN'' 1, Sleep 1, HttpGet ''TSLA'' 1, Sleep 1, HttpGet ''NVDA'' 1, Sleep 1,
    PutItem [(''date'', DStr ''2025-06-10''), (''ticker'', DStr ''MSFT''),
       (''percent_change'', DStr ''-5.0''), (''closing_price'', DStr ''190.0''),
       (''ingested_at'', DStr ''2025-06-10T21:00:05+00:00'')]], 
    [[(''date'', DStr ''2025-06-10''), (''ticker'', DStr ''MSFT''),
       (''percent_change'', DStr ''-5.0''), (''closing_price'', DStr ''190.0''),
       (''ingested_at'', DStr ''2025-06-10T21:00:05+00:00'')]])"
  by (simp add: ingestion_main_def world_busy_def world_closed_def get_api_key_def py_strip_def is_space_def WATCHLIST_def
      fetch_ticker_cases on_status_200_lowercase_bar on_status_200_empty isoformat_739412 RETRY_DELAY_def Let_def
      calculate_pct_change_def select_winner_def py_max_def write_winner_def winner_item_def put_item_def
      py_round_def round_half_even_def py_str_decimal_def str_fixed_def text_eval)

lemma fetch_ticker_no_put: "filter is_PutItem (snd (fetch_ticker nt tk)) = []"
  by (simp add: fetch_ticker_cases)

lemma fetch_all_no_put:
  "fetch_all nt tks st = (eo, st') \<Longrightarrow>
     filter is_PutItem (events st') = filter is_PutItem (events st)"
proof (induction tks arbitrary: st)
  case Nil
  then show ?case by simp
next
  case (Cons tk tks)
  obtain data evs where f: "fetch_ticker nt tk = (data, evs)" by (cases "fetch_ticker nt tk")
  have np: "filter is_PutItem evs = []" using fetch_ticker_no_put [of nt tk] f by simp
  show ?case
  proof (cases data)
    case None
    with Cons.prems f have
      "fetch_all nt tks (st\<lparr>events := events st @ evs @ [Sleep RETRY_DELAY],
          failed_tickers := failed_tickers st @ [tk]\<rparr>) = (eo, st')"
      by (simp add: Let_def)
    from Cons.IH [OF this] np show ?thesis by simp
  next
    case (Some q)
    show ?thesis
    proof (cases "calculate_pct_change (O_price q) (C_price q)")
      case (Inl e)
      with Cons.prems f Some np show ?thesis by (auto simp: Let_def)
    next
      case (Inr pct)
      with Cons.prems f Some have
        "fetch_all nt tks (st\<lparr>events := events st @ evs @ [Sleep RETRY_DELAY],
            results := results st @ [\<lparr>ticker = tk, pct_change = pct, closing_price = C_price q\<rparr>]\<rparr>)
           = (eo, st')"
        by (simp add: Let_def)
      from Cons.IH [OF this] np show ?thesis by simp
    qed
  qed
qed

lemma fetch_all_absent:
  "\<forall>tk \<in> set tks. fst (fetch_ticker nt tk) = None \<Longrightarrow>
     \<exists>st'. fetch_all nt tks st = (None, st') \<and> results st' = results st
            \<and> failed_tickers st' = failed_tickers st @ tks"
proof (induction tks arbitrary: st)
  case Nil
  then show ?case by simp
next
  case (Cons tk tks)
  obtain evs where f: "fetch_ticker nt tk = (None, evs)"
    using Cons.prems by (cases "fetch_ticker nt tk") auto
  from Cons.prems have rest: "\<forall>tk \<in> set tks. fst (fetch_ticker nt tk) = None" by simp
  from Cons.IH [OF rest, of "st\<lparr>events := events st @ evs @ [Sleep RETRY_DELAY],
          failed_tickers := failed_tickers st @ [tk]\<rparr>"]
  show ?case using f by (auto simp: Let_def)
qed

lemma select_winner_nonempty: "rs \<noteq> [] \<Longrightarrow> \<exists>win. select_winner rs = Inr win"
  by (cases rs) (auto simp: select_winner_def py_max_def)


text \<open>
  Claim C5.  When the API key is retrieved and every ticker of the watchlist comes back
  absent, the run returns status 200 with the "no data" message and the trade date, the
  table is as before and no write was attempted.
\<close>

theorem ingestion_no_data:
  assumes "secret w = Inr key"
    and "\<forall>tk \<in> set WATCHLIST. fst (fetch_ticker (net w) tk) = None"
  shows "\<exists>evs. ingestion_main w table
            = (Inr \<lparr>statusCode = 200, body = NoDataBody no_data_message (isoformat (today w))\<rparr>,
               evs, table)
          \<and> filter is_PutItem evs = []"
proof -
  from fetch_all_absent [OF assms(2), of "\<lparr>results = [], failed_tickers = [], events = [GetSecret]\<rparr>"]
  obtain st' where fa: "fetch_all (net w) WATCHLIST
        \<lparr>results = [], failed_tickers = [], events = [GetSecret]\<rparr> = (None, st')"
    and rs: "results st' = []" by auto
  from fetch_all_no_put [OF fa] have np: "filter is_PutItem (events st') = []" by simp
  show ?thesis
    using assms(1) fa rs np by (simp add: ingestion_main_def get_api_key_def Let_def)
qed


theorem ingestion_no_data_witness:
  "secret world_closed = Inr ''key''
   \<and> list_all (\<lambda>tk. fst (fetch_ticker (net world_closed) tk) = None) WATCHLIST
   \<and> ingestion_main world_closed []
       = (Inr \<lparr>statusCode = 200, body = NoDataBody no_data_message ''2025-06-10''\<rparr>,
     [GetSecret, HttpGet ''AAPL'' 1, Sleep 1, HttpGet ''MSFT'' 1, Sleep 1, HttpGet ''GOOGL'' 1, Sleep 1,
      HttpGet ''AMZN'' 1, Sleep 1, HttpGet ''TSLA'' 1, Sleep 1, HttpGet ''NVDA'' 1, Sleep 1], [])
   \<and> filter is_PutItem
     [GetSecret, HttpGet ''AAPL'' 1, Sleep 1, HttpGet ''MSFT'' 1, Sleep 1, HttpGet ''GOOGL'' 1, Sleep 1,
      HttpGet ''AMZN'' 1, Sleep 1, HttpGet ''TSLA'' 1, Sleep 1, HttpGet ''NVDA'' 1, Sleep 1] = []"
proof -
  have h1: "secret world_closed = Inr ''key''" by (simp add: world_closed_def)
  have h2: "\<forall>tk \<in> set WATCHLIST. fst (fetch_ticker (net world_closed) tk) = None"
    by (simp add: world_closed_def fetch_ticker_cases on_status_200_empty)
  from ingestion_no_data [OF h1 h2, of "[]"] obtain evs where
    "ingestion_main world_closed []
       = (Inr \<lparr>statusCode = 200, body = NoDataBody no_data_message (isoformat (today world_closed))\<rparr>,
          evs, [])"
    and np: "filter is_PutItem evs = []" by blast
  with run_world_closed have "evs =
     [GetSecret, HttpGet ''AAPL'' 1, Sleep 1, HttpGet ''MSFT'' 1, Sleep 1, HttpGet ''GOOGL'' 1, Sleep 1,
      HttpGet ''AMZN'' 1, Sleep 1, HttpGet ''TSLA'' 1, Sleep 1, HttpGet ''NVDA'' 1, Sleep 1]" by simp
  with np h1 h2 run_world_closed show ?thesis by (simp add: list_all_iff)
qed

text \<open>
  Claim C6.  When the secret store raises, the run returns status 500 at once: no request
  for a ticker has been made, no write attempted, and the table is as before.  When
  DynamoDB raises on the write, that exception leaves \<open>main\<close> for the invoker, the write
  was attempted exactly once, and the table is as before.
\<close>

theorem ingestion_fatal_failures:
  assumes "ingestion_main w table = (res, evs, table')"
  shows "(\<forall>e. secret w = Inl e \<longrightarrow>
            res = Inr \<lparr>statusCode = 500, body = Text ''Failed to retrieve API key''\<rparr>
            \<and> filter is_HttpGet evs = [] \<and> filter is_PutItem evs = [] \<and> table' = table)
       \<and> (\<forall>e. put_error w = Some e \<and> (\<exists>it. PutItem it \<in> set evs) \<longrightarrow>
            res = Inl e \<and> length (filter is_PutItem evs) = 1 \<and> table' = table)"
proof -
  have a: "res = Inr \<lparr>statusCode = 500, body = Text ''Failed to retrieve API key''\<rparr>
            \<and> filter is_HttpGet evs = [] \<and> filter is_PutItem evs = [] \<and> table' = table"
    if "secret w = Inl e" for e
    using assms that by (auto simp: ingestion_main_def get_api_key_def)
  have b: "res = Inl e \<and> length (filter is_PutItem evs) = 1 \<and> table' = table"
    if pe: "put_error w = Some e" and ex: "\<exists>it. PutItem it \<in> set evs" for e
  proof (cases "secret w")
    case (Inl e')
    from a [OF this] ex show ?thesis by (auto simp: filter_empty_conv)
  next
    case (Inr key)
    obtain eo st where fa: "fetch_all (net w) WATCHLIST
        \<lparr>results = [], failed_tickers = [], events = [GetSecret]\<rparr> = (eo, st)"
      by (cases "fetch_all (net w) WATCHLIST \<lparr>results = [], failed_tickers = [], events = [GetSecret]\<rparr>")
    from fetch_all_no_put [OF fa] have np: "filter is_PutItem (events st) = []" by simp
    then have np': "\<And>it. PutItem it \<notin> set (events st)" by (auto simp: filter_empty_conv)
    show ?thesis
    proof (cases eo)
      case (Some e')
      with assms Inr fa have "evs = events st"
        by (simp add: ingestion_main_def get_api_key_def Let_def)
      with ex np' show ?thesis by simp
    next
      case None
      show ?thesis
      proof (cases "results st = []")
        case True
        with assms Inr fa None have "evs = events st"
          by (simp add: ingestion_main_def get_api_key_def Let_def)
        with ex np' show ?thesis by simp
      next
        case False
        from select_winner_nonempty [OF False] obtain win where sw: "select_winner (results st) = Inr win"
          by blast
        from assms Inr fa None False sw pe np show ?thesis
          by (auto simp: ingestion_main_def get_api_key_def Let_def write_winner_def)
      qed
    qed
  qed
  from a b show ?thesis by blast
qed

theorem ingestion_fatal_failures_witness:
  "ingestion_main world_no_secret []
     = (Inr \<lparr>statusCode = 500, body = Text ''Failed to retrieve API key''\<rparr>, [GetSecret], [])
   \<and> secret world_no_secret = Inl ClientError
   \<and> ingestion_main world_put_fails [] = (Inl ClientError,
     [GetSecret, HttpGet ''AAPL'' 1, Sleep 1, HttpGet ''MSFT'' 1, Sleep 1, HttpGet ''GOOGL'' 1, Sleep 1,
      HttpGet ''AMZN'' 1, Sleep 1, HttpGet ''TSLA'' 1, Sleep 1, HttpGet ''NVDA'' 1, Sleep 1,
      PutItem [(''date'', DStr ''2025-06-10''), (''ticker'', DStr ''AAPL''),
        (''percent_change'', DStr ''-5.0''), (''closing_price'', DStr ''190.0''),
        (''ingested_at'', DStr ''2025-06-10T21:00:05+00:00'')]], [])
   \<and> put_error world_put_fails = Some ClientError
   \<and> length (filter is_PutItem
     [GetSecret, HttpGet ''AAPL'' 1, Sleep 1, HttpGet ''MSFT'' 1, Sleep 1, HttpGet ''GOOGL'' 1, Sleep 1,
      HttpGet ''AMZN'' 1, Sleep 1, HttpGet ''TSLA'' 1, Sleep 1, HttpGet ''NVDA'' 1, Sleep 1,
      PutItem [(''date'', DStr ''2025-06-10''), (''ticker'', DStr ''AAPL''),
        (''percent_change'', DStr ''-5.0''), (''closing_price'', DStr ''190.0''),
        (''ingested_at'', DStr ''2025-06-10T21:00:05+00:00'')]]) = 1"
proof -
  have r1: "ingestion_main world_no_secret []
     = (Inr \<lparr>statusCode = 500, body = Text ''Failed to retrieve API key''\<rparr>, [GetSecret], [])"
    by (simp add: ingestion_main_def get_api_key_def world_no_secret_def world_closed_def)
  have s1: "secret world_no_secret = Inl ClientError"
    by (simp add: world_no_secret_def world_closed_def)
  have p2: "put_error world_put_fails = Some ClientError"
    by (simp add: world_put_fails_def world_closed_def)
  from ingestion_fatal_failures [OF r1] s1 have "filter is_HttpGet [GetSecret] = []" by blast
  from ingestion_fatal_failures [OF run_world_put_fails] p2
  have "length (filter is_PutItem
     [GetSecret, HttpGet ''AAPL'' 1, Sleep 1, HttpGet ''MSFT'' 1, Sleep 1, HttpGet ''GOOGL'' 1, Sleep 1,
      HttpGet ''AMZN'' 1, Sleep 1, HttpGet ''TSLA'' 1, Sleep 1, HttpGet ''NVDA'' 1, Sleep 1,
      PutItem [(''date'', DStr ''2025-06-10''), (''ticker'', DStr ''AAPL''),
        (''percent_change'', DStr ''-5.0''), (''closing_price'', DStr ''190.0''),
        (''ingested_at'', DStr ''2025-06-10T21:00:05+00:00'')]]) = 1"
    by simp
  with r1 s1 p2 run_world_put_fails show ?thesis by blast
qed


section \<open>Properties of the query handler\<close>

lemma try_map_Inr:
  "try_map f xs = Inr ys \<Longrightarrow> length ys = length xs \<and> (\<forall>i < length xs. f (xs ! i) = Inr (ys ! i))"
proof (induction xs arbitrary: ys)
  case Nil
  then show ?case by simp
next
  case (Cons x xs)
  from Cons.prems obtain y ys' where fx: "f x = Inr y" and tl: "try_map f xs = Inr ys'"
    and ys: "ys = y # ys'"
    by (auto split: sum.splits)
  from Cons.IH [OF tl] have len: "length ys' = length xs"
    and nth: "\<forall>i < length xs. f (xs ! i) = Inr (ys' ! i)" by auto
  show ?case
  proof (intro conjI allI impI)
    show "length ys = length (x # xs)" using len ys by simp
  next
    fix i assume "i < length (x # xs)"
    then show "f ((x # xs) ! i) = Inr (ys ! i)"
      using fx nth ys by (cases i) auto
  qed
qed

lemma try_map_Inr_set:
  "try_map f xs = Inr ys \<Longrightarrow> y \<in> set ys \<Longrightarrow> \<exists>x \<in> set xs. f x = Inr y"
  by (metis in_set_conv_nth nth_mem try_map_Inr)

lemma try_map_Inl:
  "try_map f xs = Inl e \<longleftrightarrow> (\<exists>i < length xs. f (xs ! i) = Inl e \<and> (\<forall>j < i. \<exists>y. f (xs ! j) = Inr y))"
proof (induction xs)
  case Nil
  then show ?case by simp
next
  case (Cons x xs)
  show ?case
  proof (cases "f x")
    case (Inl e')
    show ?thesis
    proof
      assume "try_map f (x # xs) = Inl e"
      with Inl have "e' = e" by simp
      with Inl show "\<exists>i < length (x # xs). f ((x # xs) ! i) = Inl e \<and> (\<forall>j < i. \<exists>y. f ((x # xs) ! j) = Inr y)"
        by (intro exI [of _ 0]) simp
    next
      assume "\<exists>i < length (x # xs). f ((x # xs) ! i) = Inl e \<and> (\<forall>j < i. \<exists>y. f ((x # xs) ! j) = Inr y)"
      then obtain i where i: "f ((x # xs) ! i) = Inl e" "\<forall>j < i. \<exists>y. f ((x # xs) ! j) = Inr y" by blast
      have "i = 0"
      proof (rule ccontr)
        assume "i \<noteq> 0"
        then have "0 < i" by simp
        with i(2) obtain y where "f ((x # xs) ! 0) = Inr y" by blast
        with Inl show False by simp
      qed
      with i Inl show "try_map f (x # xs) = Inl e" by simp
    qed
  next
    case (Inr y)
    have "try_map f (x # xs) = Inl e \<longleftrightarrow> try_map f xs = Inl e"
      using Inr by (simp split: sum.splits)
    also have "\<dots> \<longleftrightarrow> (\<exists>i < length xs. f (xs ! i) = Inl e \<and> (\<forall>j < i. \<exists>y. f (xs ! j) = Inr y))"
      by (rule Cons.IH)
    also have "\<dots> \<longleftrightarrow> (\<exists>i < length (x # xs). f ((x # xs) ! i) = Inl e \<and> (\<forall>j < i. \<exists>y. f ((x # xs) ! j) = Inr y))"
    proof
      assume "\<exists>i < length xs. f (xs ! i) = Inl e \<and> (\<forall>j < i. \<exists>y. f (xs ! j) = Inr y)"
      then obtain i where i: "i < length xs" "f (xs ! i) = Inl e" "\<forall>j < i. \<exists>y. f (xs ! j) = Inr y" by blast
      have "\<exists>y. f ((x # xs) ! j) = Inr y" if "j < Suc i" for j
        using that i(3) Inr by (cases j) auto
      with i show "\<exists>i < length (x # xs). f ((x # xs) ! i) = Inl e \<and> (\<forall>j < i. \<exists>y. f ((x # xs) ! j) = Inr y)"
        by (intro exI [of _ "Suc i"]) simp
    next
      assume "\<exists>i < length (x # xs). f ((x # xs) ! i) = Inl e \<and> (\<forall>j < i. \<exists>y. f ((x # xs) ! j) = Inr y)"
      then obtain i where i: "i < length (x # xs)" "f ((x # xs) ! i) = Inl e"
        "\<forall>j < i. \<exists>y. f ((x # xs) ! j) = Inr y" by blast
      from i(2) Inr obtain k where k: "i = Suc k" by (cases i) auto
      have "\<exists>y. f (xs ! j) = Inr y" if "j < k" for j
        using i(3) k that by (auto dest: spec [of _ "Suc j"])
      with i k show "\<exists>i < length xs. f (xs ! i) = Inl e \<and> (\<forall>j < i. \<exists>y. f (xs ! j) = Inr y)"
        by (intro exI [of _ k]) simp
    qed
    finally show ?thesis .
  qed
qed

lemma try_map_total:
  "(\<forall>x \<in> set xs. f x = Inr (g x)) \<Longrightarrow> try_map f xs = Inr (map g xs)"
  by (induction xs) auto

lemma try_map_fails:
  "x \<in> set xs \<Longrightarrow> f x = Inl e \<Longrightarrow> \<exists>e'. try_map f xs = Inl e'"
  by (induction xs) (auto split: sum.splits)

lemma get_date_range_ok:
  assumes "days \<le> today w"
  shows "get_date_range w days = Inr (map (\<lambda>i. isoformat (today w - i)) [0 ..< days])"
  unfolding get_date_range_def
  by (rule try_map_total) (use assms in \<open>auto simp: date_minus_days_def\<close>)

lemma sort_desc_sorted: "sorted_wrt (\<lambda>a b. key b \<le> key a) (sort_desc key xs)"
proof -
  have "sorted (map key (sort_key key (rev xs)))" by (rule sorted_sort_key)
  then have "sorted_wrt (\<lambda>a b. key a \<le> key b) (sort_key key (rev xs))" by (simp add: sorted_map)
  then show ?thesis by (simp add: sort_desc_def sorted_wrt_rev)
qed

lemma sort_desc_set: "set (sort_desc key xs) = set xs" and sort_desc_length: "length (sort_desc key xs) = length xs"
  by (simp_all add: sort_desc_def)

lemma short_sorted: "length xs \<le> 1 \<Longrightarrow> sorted_wrt P xs"
  by (cases xs) (auto simp: Suc_le_eq)

lemma py_sorted_reverse_Inr:
  assumes "py_sorted_reverse key xs = Inr ys" and "list_all (\<lambda>x. is_DStr (key x)) xs"
  shows "set ys = set xs \<and> length ys = length xs
         \<and> sorted_wrt (\<lambda>a b. str_of (key b) \<le> str_of (key a)) ys"
proof (cases "length xs \<le> 1")
  case True
  with assms have "ys = xs" by (simp add: py_sorted_reverse_def)
  with True show ?thesis by (simp add: short_sorted)
next
  case False
  with assms have "ys = sort_desc (\<lambda>x. str_of (key x)) xs" by (simp add: py_sorted_reverse_def)
  then show ?thesis
    using sort_desc_sorted [of "\<lambda>x. str_of (key x)" xs] by (simp add: sort_desc_set sort_desc_length)
qed

lemma py_sorted_reverse_strings:
  "list_all (\<lambda>x. is_DStr (key x)) xs \<Longrightarrow> \<exists>ys. py_sorted_reverse key xs = Inr ys"
  by (simp add: py_sorted_reverse_def)

lemma map_of_projection_date: "map_of (projection it) ''date'' = map_of it ''date''"
  by (induction it) (auto simp: projection_def)

lemma format_item_date: "format_item it = Inr m \<Longrightarrow> map_of it ''date'' = Some (m_date m)"
  by (auto simp: format_item_def split: option.splits sum.splits)

lemma batch_get_item_sound:
  assumes "it' \<in> set (batch_get_item table answered keys)"
  shows "\<exists>it d. it \<in> set table \<and> d \<in> set keys \<and> map_of it ''date'' = Some (DStr d) \<and> it' = projection it"
proof -
  from assms obtain d where d: "d \<in> set answered" "d \<in> set keys"
    and g: "map_option projection (get_item table d) = Some it'"
    by (auto simp: batch_get_item_def List.map_filter_def split: if_splits)
  from g obtain it where it: "get_item table d = Some it" "it' = projection it" by auto
  from it(1) have "it \<in> set table \<and> map_of it ''date'' = Some (DStr d)"
    by (auto simp: get_item_def find_Some_iff)
  with d it show ?thesis by blast
qed

lemma date_range_7:
  "map (\<lambda>i. isoformat (today w - i)) [0 ..< DAYS_TO_RETURN]
     = [isoformat (today w), isoformat (today w - 1), isoformat (today w - 2),
        isoformat (today w - 3), isoformat (today w - 4), isoformat (today w - 5),
        isoformat (today w - 6)]"
  by (simp add: DAYS_TO_RETURN_def upt_rec eval_nat_numeral)

lemma format_movers_sound:
  assumes fm: "format_movers items = Inr movers"
    and dates: "\<forall>it \<in> set items. \<exists>d. map_of it ''date'' = Some (DStr d)"
  shows "(\<forall>m \<in> set movers. \<exists>it \<in> set items. format_item it = Inr m)
         \<and> length movers = length items
         \<and> sorted_wrt (\<lambda>a b. str_of (m_date b) \<le> str_of (m_date a)) movers"
proof -
  from fm obtain formatted where tm: "try_map format_item items = Inr formatted"
    and srt: "py_sorted_reverse m_date formatted = Inr movers"
    by (auto simp: format_movers_def split: sum.splits)
  have strs: "list_all (\<lambda>x. is_DStr (m_date x)) formatted"
    unfolding list_all_iff
  proof
    fix m assume "m \<in> set formatted"
    from try_map_Inr_set [OF tm this] obtain it where it: "it \<in> set items" "format_item it = Inr m"
      by blast
    from dates it(1) obtain d where "map_of it ''date'' = Some (DStr d)" by blast
    with format_item_date [OF it(2)] have "m_date m = DStr d" by simp
    then show "is_DStr (m_date m)" by simp
  qed
  from py_sorted_reverse_Inr [OF srt strs] try_map_Inr [OF tm] try_map_Inr_set [OF tm]
  show ?thesis by auto
qed

lemma format_movers_total:
  assumes ok: "\<forall>it \<in> set items. \<exists>m. format_item it = Inr m"
    and dates: "\<forall>it \<in> set items. \<exists>d. map_of it ''date'' = Some (DStr d)"
  shows "\<exists>movers. format_movers items = Inr movers"
proof -
  from ok have "\<forall>it \<in> set items. format_item it = Inr (projr (format_item it))" by auto
  from try_map_total [OF this] have tm: "try_map format_item items = Inr (map (\<lambda>it. projr (format_item it)) items)" .
  have "list_all (\<lambda>x. is_DStr (m_date x)) (map (\<lambda>it. projr (format_item it)) items)"
    unfolding list_all_iff
  proof
    fix m assume "m \<in> set (map (\<lambda>it. projr (format_item it)) items)"
    then obtain it where it: "it \<in> set items" "m = projr (format_item it)" by auto
    from ok it have fi: "format_item it = Inr m" by auto
    from dates it(1) obtain d where "map_of it ''date'' = Some (DStr d)" by blast
    with format_item_date [OF fi] have "m_date m = DStr d" by simp
    then show "is_DStr (m_date m)" by simp
  qed
  from py_sorted_reverse_strings [OF this] tm show ?thesis by (simp add: format_movers_def)
qed

lemmas date_eval = isoformat_def ord2ymd_def Let_def DAYS_BEFORE_MONTH_def DAYS_IN_MONTH_def text_eval

lemma week_739412:
  "isoformat 739412 = ''2025-06-10''" "isoformat (739412 - 1) = ''2025-06-09''"
  "isoformat (739412 - 2) = ''2025-06-08''" "isoformat (739412 - 3) = ''2025-06-07''"
  "isoformat (739412 - 4) = ''2025-06-06''" "isoformat (739412 - 5) = ''2025-06-05''"
  "isoformat (739412 - 6) = ''2025-06-04''"
  by (simp_all add: date_eval)

lemma float_examples: "py_float_str ''1.2346'' = Inr (12346 / 10000)" "py_float_str ''211.5'' = Inr (2115 / 10)"
   "py_float_str ''-5.0'' = Inr (- 5)" "py_float_str ''190.0'' = Inr 190"
  by (simp_all add: py_float_str_def Let_def digit_val_def)

lemma batch_get_june: "batch_get_item table_june (served world_query) [''2025-06-10'', ''2025-06-09'', ''2025-06-08'', ''2025-06-07'',
         ''2025-06-06'', ''2025-06-05'', ''2025-06-04''] = 
     [[(''date'', DStr ''2025-06-07''), (''ticker'', DStr ''AAPL''),
       (''percent_change'', DStr ''1.2346''), (''closing_price'', DStr ''211.5'')],
      [(''date'', DStr ''2025-06-10''), (''ticker'', DStr ''MSFT''),
       (''percent_change'', DStr ''-5.0''), (''closing_price'', DStr ''190.0'')]]"
  by (simp add: batch_get_item_def world_query_def world_closed_def table_june_def get_item_def projection_def)

lemma format_movers_june: "format_movers [[(''date'', DStr ''2025-06-07''), (''ticker'', DStr ''AAPL''),
       (''percent_change'', DStr ''1.2346''), (''closing_price'', DStr ''211.5'')],
      [(''date'', DStr ''2025-06-10''), (''ticker'', DStr ''MSFT''),
       (''percent_change'', DStr ''-5.0''), (''closing_price'', DStr ''190.0'')]]
   = Inr [\<lparr>m_date = DStr ''2025-06-10'', m_ticker = DStr ''MSFT'', m_percent_change = - 5, m_closing_price = 190\<rparr>,
          \<lparr>m_date = DStr ''2025-06-07'', m_ticker = DStr ''AAPL'', m_percent_change = 123 / 100, m_closing_price = 2115 / 10\<rparr>]"
  by (simp add: format_movers_def format_item_def float_examples py_round_def round_half_even_def Let_def py_sorted_reverse_def sort_desc_def)

lemma run_world_query:
  "query_main world_query \<lparr>httpMethod = Some ''GET''\<rparr> table_june
     = (\<lparr>statusCode = 200,
         body = MoversBody
           [\<lparr>m_date = DStr ''2025-06-10'', m_ticker = DStr ''MSFT'', m_percent_change = - 5, m_closing_price = 190\<rparr>,
            \<lparr>m_date = DStr ''2025-06-07'', m_ticker = DStr ''AAPL'', m_percent_change = 123 / 100, m_closing_price = 2115 / 10\<rparr>] 2,
         headers = CORS_HEADERS\<rparr>,
        [BatchGetItem [''2025-06-10'', ''2025-06-09'', ''2025-06-08'', ''2025-06-07'',
         ''2025-06-06'', ''2025-06-05'', ''2025-06-04'']])"
proof -
  have t: "today world_query = 739412" "get_error world_query = None"
    by (simp_all add: world_query_def world_closed_def)
  have "DAYS_TO_RETURN \<le> today world_query" by (simp add: t DAYS_TO_RETURN_def)
  from get_date_range_ok [OF this, unfolded date_range_7]
  have dr: "get_date_range world_query DAYS_TO_RETURN = Inr [''2025-06-10'', ''2025-06-09'', ''2025-06-08'', ''2025-06-07'',
         ''2025-06-06'', ''2025-06-05'', ''2025-06-04'']"
    by (simp only: t week_739412)
  show ?thesis
    by (simp add: query_main_def dr query_movers_def t batch_get_june format_movers_june)
qed

text \<open>
  Claim C7.  A GET request on a day that has six days before it asks the table, in one
  batch read, for exactly the seven dates today, today - 1, ..., today - 6.  When the
  answer is a 200, its body lists movers and their number; every mover is the formatted
  projection of a record of the table and carries one of the seven dates; and the movers
  are in descending order of their date strings.  The answer is a 200 whenever the read
  raises nothing and every record of the table can be formatted.
\<close>

theorem query_recent_movers:
  assumes run: "query_main w req table = (resp, evs)"
    and get: "httpMethod req \<noteq> Some ''OPTIONS''"
    and day: "DAYS_TO_RETURN \<le> today w"
  shows "evs = [BatchGetItem
                  [isoformat (today w), isoformat (today w - 1), isoformat (today w - 2),
                   isoformat (today w - 3), isoformat (today w - 4), isoformat (today w - 5),
                   isoformat (today w - 6)]]
    \<and> (statusCode resp = 200 \<longrightarrow>
         (\<exists>movers. body resp = MoversBody movers (length movers)
            \<and> (\<forall>m \<in> set movers. \<exists>i < 7. m_date m = DStr (isoformat (today w - i)))
            \<and> (\<forall>m \<in> set movers. \<exists>it \<in> set table. format_item (projection it) = Inr m)
            \<and> sorted_wrt (\<lambda>a b. str_of (m_date b) \<le> str_of (m_date a)) movers))
    \<and> (get_error w = None \<and> (\<forall>it \<in> set table. \<exists>m. format_item (projection it) = Inr m)
         \<longrightarrow> statusCode resp = 200)"
proof -
  let ?dr = "[isoformat (today w), isoformat (today w - 1), isoformat (today w - 2),
              isoformat (today w - 3), isoformat (today w - 4), isoformat (today w - 5),
              isoformat (today w - 6)]"
  have dr: "get_date_range w DAYS_TO_RETURN = Inr ?dr"
    using get_date_range_ok [OF day] by (simp only: date_range_7)
  have in_dr: "\<exists>i < 7. d = isoformat (today w - i)" if "d \<in> set ?dr" for d
  proof -
    from that consider "d = isoformat (today w - 0)" | "d = isoformat (today w - 1)"
      | "d = isoformat (today w - 2)" | "d = isoformat (today w - 3)"
      | "d = isoformat (today w - 4)" | "d = isoformat (today w - 5)"
      | "d = isoformat (today w - 6)" by auto
    then show ?thesis
    proof cases
      case 1 then show ?thesis by (intro exI [of _ 0]) simp
    next
      case 2 then show ?thesis by (intro exI [of _ 1]) simp
    next
      case 3 then show ?thesis by (intro exI [of _ 2]) simp
    next
      case 4 then show ?thesis by (intro exI [of _ 3]) simp
    next
      case 5 then show ?thesis by (intro exI [of _ 4]) simp
    next
      case 6 then show ?thesis by (intro exI [of _ 5]) simp
    next
      case 7 then show ?thesis by (intro exI [of _ 6]) simp
    qed
  qed
  show ?thesis
  proof (cases "get_error w")
    case (Some e)
    with run get dr show ?thesis
      by (auto simp: query_main_def query_movers_def internal_error_def)
  next
    case None
    let ?items = "batch_get_item table (served w) ?dr"
    have qm: "query_movers w table ?dr = (Inr ?items, [BatchGetItem ?dr])"
      using None by (simp add: query_movers_def)
    have src: "\<exists>it d. it \<in> set table \<and> d \<in> set ?dr \<and> map_of it ''date'' = Some (DStr d) \<and> it' = projection it"
      if "it' \<in> set ?items" for it'
      using batch_get_item_sound [OF that] .
    have dates: "\<forall>it' \<in> set ?items. \<exists>d. map_of it' ''date'' = Some (DStr d)"
      using src by (metis map_of_projection_date)
    show ?thesis
    proof (cases "format_movers ?items")
      case (Inl e)
      have bad: "\<not> (\<forall>it \<in> set table. \<exists>m. format_item (projection it) = Inr m)"
      proof
        assume all: "\<forall>it \<in> set table. \<exists>m. format_item (projection it) = Inr m"
        have "\<forall>it' \<in> set ?items. \<exists>m. format_item it' = Inr m"
          using src all by metis
        from format_movers_total [OF this dates] Inl show False by simp
      qed
      from run get dr qm Inl have "resp = internal_error e" and "evs = [BatchGetItem ?dr]"
        by (simp_all add: query_main_def)
      with bad show ?thesis by (simp add: internal_error_def)
    next
      case (Inr movers)
      from run get dr qm Inr have resp: "resp = \<lparr>statusCode = 200, body = MoversBody movers (length movers),
                         headers = CORS_HEADERS\<rparr>" and evs: "evs = [BatchGetItem ?dr]"
        by (simp_all add: query_main_def)
      from format_movers_sound [OF Inr dates] have
        orig: "\<forall>m \<in> set movers. \<exists>it' \<in> set ?items. format_item it' = Inr m"
        and srt: "sorted_wrt (\<lambda>a b. str_of (m_date b) \<le> str_of (m_date a)) movers" by auto
      have p1: "\<exists>i < 7. m_date m = DStr (isoformat (today w - i))" if "m \<in> set movers" for m
      proof -
        from orig that obtain it' where it': "it' \<in> set ?items" "format_item it' = Inr m" by blast
        from src [OF it'(1)] obtain it d where d: "d \<in> set ?dr" "map_of it ''date'' = Some (DStr d)"
          "it' = projection it" by blast
        from format_item_date [OF it'(2)] d have "m_date m = DStr d"
          by (simp add: map_of_projection_date)
        with in_dr [OF d(1)] show ?thesis by blast
      qed
      have p2: "\<exists>it \<in> set table. format_item (projection it) = Inr m" if "m \<in> set movers" for m
      proof -
        from orig that obtain it' where it': "it' \<in> set ?items" "format_item it' = Inr m" by blast
        from src [OF it'(1)] it'(2) show ?thesis by blast
      qed
      from resp evs p1 p2 srt show ?thesis by auto
    qed
  qed
qed


theorem query_recent_movers_witness:
  "query_main world_query \<lparr>httpMethod = Some ''GET''\<rparr> table_june
     = (\<lparr>statusCode = 200,
         body = MoversBody
           [\<lparr>m_date = DStr ''2025-06-10'', m_ticker = DStr ''MSFT'', m_percent_change = - 5, m_closing_price = 190\<rparr>,
            \<lparr>m_date = DStr ''2025-06-07'', m_ticker = DStr ''AAPL'', m_percent_change = 123 / 100, m_closing_price = 2115 / 10\<rparr>] 2,
         headers = CORS_HEADERS\<rparr>,
        [BatchGetItem [''2025-06-10'', ''2025-06-09'', ''2025-06-08'', ''2025-06-07'',
         ''2025-06-06'', ''2025-06-05'', ''2025-06-04'']])
   \<and> httpMethod \<lparr>httpMethod = Some ''GET''\<rparr> \<noteq> Some ''OPTIONS''
   \<and> DAYS_TO_RETURN \<le> today world_query
   \<and> sorted_wrt (\<lambda>a b. str_of (m_date b) \<le> str_of (m_date a))
         [\<lparr>m_date = DStr ''2025-06-10'', m_ticker = DStr ''MSFT'', m_percent_change = - 5, m_closing_price = 190\<rparr>,
          \<lparr>m_date = DStr ''2025-06-07'', m_ticker = DStr ''AAPL'', m_percent_change = 123 / 100, m_closing_price = 2115 / 10\<rparr>]"
proof -
  have h2: "httpMethod \<lparr>httpMethod = Some ''GET''\<rparr> \<noteq> Some ''OPTIONS''" by simp
  have h3: "DAYS_TO_RETURN \<le> today world_query"
    by (simp add: DAYS_TO_RETURN_def world_query_def world_closed_def)
  from query_recent_movers [OF run_world_query h2 h3]
  obtain movers where
    b: "MoversBody
           [\<lparr>m_date = DStr ''2025-06-10'', m_ticker = DStr ''MSFT'', m_percent_change = - 5, m_closing_price = 190\<rparr>,
            \<lparr>m_date = DStr ''2025-06-07'', m_ticker = DStr ''AAPL'', m_percent_change = 123 / 100, m_closing_price = 2115 / 10\<rparr>] 2
          = MoversBody movers (length movers)"
    and s: "sorted_wrt (\<lambda>a b. str_of (m_date b) \<le> str_of (m_date a)) movers"
    by auto
  from b have "movers =
           [\<lparr>m_date = DStr ''2025-06-10'', m_ticker = DStr ''MSFT'', m_percent_change = - 5, m_closing_price = 190\<rparr>,
            \<lparr>m_date = DStr ''2025-06-07'', m_ticker = DStr ''AAPL'', m_percent_change = 123 / 100, m_closing_price = 2115 / 10\<rparr>]"
    by simp
  with s have "sorted_wrt (\<lambda>a b. str_of (m_date b) \<le> str_of (m_date a))
         [\<lparr>m_date = DStr ''2025-06-10'', m_ticker = DStr ''MSFT'', m_percent_change = - 5, m_closing_price = 190\<rparr>,
          \<lparr>m_date = DStr ''2025-06-07'', m_ticker = DStr ''AAPL'', m_percent_change = 123 / 100, m_closing_price = 2115 / 10\<rparr>]"
    by simp
  with run_world_query h2 h3 show ?thesis by blast
qed

lemma query_movers_events:
  "query_movers w table dr = (r, evs) \<Longrightarrow> length (filter is_BatchGetItem evs) \<le> 1"
  by (auto simp: query_movers_def split: if_splits option.splits)

text \<open>
  Claim C9.  Whatever exception is raised while a GET request is served (by the date
  arithmetic, by the batch read, or while the records are formatted and sorted), the
  handler answers with status 500, the CORS headers and a body whose error text is
  \<^verbatim>\<open>Internal server error\<close> (with the text of the exception as its message).  The batch
  read is made at most once.  No other answer than a 200 or this 500 exists.
\<close>

theorem query_failure_is_500:
  assumes run: "query_main w req table = (resp, evs)"
    and get: "httpMethod req \<noteq> Some ''OPTIONS''"
  shows "(\<forall>e. get_date_range w DAYS_TO_RETURN = Inl e \<longrightarrow> resp = internal_error e)
    \<and> (\<forall>e dr. get_date_range w DAYS_TO_RETURN = Inr dr \<and> fst (query_movers w table dr) = Inl e
          \<longrightarrow> resp = internal_error e)
    \<and> (\<forall>e dr items. get_date_range w DAYS_TO_RETURN = Inr dr
          \<and> fst (query_movers w table dr) = Inr items \<and> format_movers items = Inl e
          \<longrightarrow> resp = internal_error e)
    \<and> (\<forall>e. statusCode (internal_error e) = 500 \<and> headers (internal_error e) = CORS_HEADERS
          \<and> body (internal_error e) = ErrorBody ''Internal server error'' e)
    \<and> (statusCode resp = 200 \<or> (\<exists>e. resp = internal_error e))
    \<and> headers resp = CORS_HEADERS
    \<and> length (filter is_BatchGetItem evs) \<le> 1"
proof -
  have a: "resp = internal_error e" if "get_date_range w DAYS_TO_RETURN = Inl e" for e
    using run get that by (simp add: query_main_def)
  have b: "resp = internal_error e"
    if "get_date_range w DAYS_TO_RETURN = Inr dr" "fst (query_movers w table dr) = Inl e" for e dr
    using run get that by (cases "query_movers w table dr") (auto simp: query_main_def)
  have c: "resp = internal_error e"
    if "get_date_range w DAYS_TO_RETURN = Inr dr" "fst (query_movers w table dr) = Inr items"
      "format_movers items = Inl e" for e dr items
    using run get that by (cases "query_movers w table dr") (auto simp: query_main_def)
  have d: "statusCode (internal_error e) = 500 \<and> headers (internal_error e) = CORS_HEADERS
          \<and> body (internal_error e) = ErrorBody ''Internal server error'' e" for e
    by (simp add: internal_error_def)
  have e: "(statusCode resp = 200 \<or> (\<exists>e. resp = internal_error e)) \<and> headers resp = CORS_HEADERS
     \<and> length (filter is_BatchGetItem evs) \<le> 1"
  proof (cases "get_date_range w DAYS_TO_RETURN")
    case (Inl e)
    with run get show ?thesis by (auto simp: query_main_def internal_error_def)
  next
    case (Inr dr)
    obtain r evs' where qm: "query_movers w table dr = (r, evs')" by (cases "query_movers w table dr")
    from run get Inr qm have "evs = evs'"
      by (auto simp: query_main_def split: sum.splits)
    with query_movers_events [OF qm] have n: "length (filter is_BatchGetItem evs) \<le> 1" by simp
    from run get Inr qm have "(statusCode resp = 200 \<or> (\<exists>e. resp = internal_error e)) \<and> headers resp = CORS_HEADERS"
      by (auto simp: query_main_def internal_error_def split: sum.splits)
    with n show ?thesis by simp
  qed
  from a b c d e show ?thesis by blast
qed

lemma run_world_db_down:
  "query_main world_db_down \<lparr>httpMethod = Some ''GET''\<rparr> table_june
     = (\<lparr>statusCode = 500, body = ErrorBody ''Internal server error'' ClientError,
         headers = CORS_HEADERS\<rparr>,
        [BatchGetItem [''2025-06-10'', ''2025-06-09'', ''2025-06-08'', ''2025-06-07'',
         ''2025-06-06'', ''2025-06-05'', ''2025-06-04'']])"
proof -
  have t: "today world_db_down = 739412" "get_error world_db_down = Some ClientError"
    by (simp_all add: world_db_down_def world_query_def world_closed_def)
  have "DAYS_TO_RETURN \<le> today world_db_down" by (simp add: t DAYS_TO_RETURN_def)
  from get_date_range_ok [OF this, unfolded date_range_7]
  have dr: "get_date_range world_db_down DAYS_TO_RETURN = Inr [''2025-06-10'', ''2025-06-09'', ''2025-06-08'', ''2025-06-07'',
         ''2025-06-06'', ''2025-06-05'', ''2025-06-04'']"
    by (simp only: t week_739412)
  show ?thesis
    by (simp add: query_main_def dr query_movers_def t internal_error_def)
qed

theorem query_failure_is_500_witness:
  "query_main world_db_down \<lparr>httpMethod = Some ''GET''\<rparr> table_june
     = (\<lparr>statusCode = 500, body = ErrorBody ''Internal server error'' ClientError,
         headers = CORS_HEADERS\<rparr>,
        [BatchGetItem [''2025-06-10'', ''2025-06-09'', ''2025-06-08'', ''2025-06-07'',
         ''2025-06-06'', ''2025-06-05'', ''2025-06-04'']])
   \<and> httpMethod \<lparr>httpMethod = Some ''GET''\<rparr> \<noteq> Some ''OPTIONS''
   \<and> get_date_range world_db_down DAYS_TO_RETURN
        = Inr [''2025-06-10'', ''2025-06-09'', ''2025-06-08'', ''2025-06-07'',
               ''2025-06-06'', ''2025-06-05'', ''2025-06-04'']
   \<and> fst (query_movers world_db_down table_june
         [''2025-06-10'', ''2025-06-09'', ''2025-06-08'', ''2025-06-07'',
          ''2025-06-06'', ''2025-06-05'', ''2025-06-04'']) = Inl ClientError
   \<and> length (filter is_BatchGetItem
        [BatchGetItem [''2025-06-10'', ''2025-06-09'', ''2025-06-08'', ''2025-06-07'',
         ''2025-06-06'', ''2025-06-05'', ''2025-06-04'']]) \<le> 1"
proof -
  have h2: "httpMethod \<lparr>httpMethod = Some ''GET''\<rparr> \<noteq> Some ''OPTIONS''" by simp
  have t: "today world_db_down = 739412" "get_error world_db_down = Some ClientError"
    by (simp_all add: world_db_down_def world_query_def world_closed_def)
  have "DAYS_TO_RETURN \<le> today world_db_down" by (simp add: t DAYS_TO_RETURN_def)
  from get_date_range_ok [OF this, unfolded date_range_7]
  have dr: "get_date_range world_db_down DAYS_TO_RETURN = Inr [''2025-06-10'', ''2025-06-09'', ''2025-06-08'', ''2025-06-07'',
         ''2025-06-06'', ''2025-06-05'', ''2025-06-04'']"
    by (simp only: t week_739412)
  have qm: "fst (query_movers world_db_down table_june
         [''2025-06-10'', ''2025-06-09'', ''2025-06-08'', ''2025-06-07'',
          ''2025-06-06'', ''2025-06-05'', ''2025-06-04'']) = Inl ClientError"
    by (simp add: query_movers_def t)
  from query_failure_is_500 [OF run_world_db_down h2]
  have "length (filter is_BatchGetItem
        [BatchGetItem [''2025-06-10'', ''2025-06-09'', ''2025-06-08'', ''2025-06-07'',
         ''2025-06-06'', ''2025-06-05'', ''2025-06-04'']]) \<le> 1" by blast
  with run_world_db_down h2 dr qm show ?thesis by blast
qed

lemma format_item_missing_key:
  "map_of it ''date'' = None \<or> map_of it ''ticker'' = None \<Longrightarrow> format_item it = Inl KeyError"
  by (auto simp: format_item_def split: option.splits)

lemma format_movers_missing_key:
  assumes "bad \<in> set items" and "map_of bad ''date'' = None \<or> map_of bad ''ticker'' = None"
  shows "\<exists>e. format_movers items = Inl e"
proof -
  from format_item_missing_key [OF assms(2)] try_map_fails [OF assms(1)]
  obtain e where "try_map format_item items = Inl e" by blast
  then show ?thesis by (simp add: format_movers_def)
qed

lemma py_round_zero: "py_round 0 n = 0"
  by (simp add: py_round_def round_half_even_def)

text \<open>
  Claim C10.  A record without \<^verbatim>\<open>date\<close> or without \<^verbatim>\<open>ticker\<close> makes \<open>format_item\<close> raise
  \<open>KeyError\<close>; a list of records that holds such a record cannot be formatted at all; and
  when the batch read of a GET request returns such a record the answer is the 500
  response and carries no movers.  A record without \<^verbatim>\<open>percent_change\<close> or without
  \<^verbatim>\<open>closing_price\<close> is formatted as if the field held the number 0.
\<close>

theorem missing_key_field_fails_request:
  assumes run: "query_main w req table = (resp, evs)"
    and get: "httpMethod req \<noteq> Some ''OPTIONS''"
    and dr: "get_date_range w DAYS_TO_RETURN = Inr dr"
    and items: "fst (query_movers w table dr) = Inr items"
    and bad: "bad \<in> set items"
    and lacks: "map_of bad ''date'' = None \<or> map_of bad ''ticker'' = None"
  shows "format_item bad = Inl KeyError
    \<and> (\<exists>e. resp = internal_error e) \<and> statusCode resp = 500
    \<and> (\<forall>its it. it \<in> set its \<and> (map_of it ''date'' = None \<or> map_of it ''ticker'' = None)
          \<longrightarrow> (\<exists>e. format_movers its = Inl e))
    \<and> (\<forall>it. map_of it ''percent_change'' = None
          \<longrightarrow> format_item it = format_item ((''percent_change'', DNum 0) # it))
    \<and> (\<forall>it. map_of it ''closing_price'' = None
          \<longrightarrow> format_item it = format_item ((''closing_price'', DNum 0) # it))
    \<and> (\<forall>it d t. map_of it ''date'' = Some d \<and> map_of it ''ticker'' = Some t
          \<and> map_of it ''percent_change'' = None \<and> map_of it ''closing_price'' = None
          \<longrightarrow> format_item it
                = Inr \<lparr>m_date = d, m_ticker = t, m_percent_change = 0, m_closing_price = 0\<rparr>)"
proof -
  have k: "format_item bad = Inl KeyError" using lacks by (rule format_item_missing_key)
  from format_movers_missing_key [OF bad lacks] obtain e where e: "format_movers items = Inl e"
    by blast
  obtain r evs' where qm: "query_movers w table dr = (r, evs')" by (cases "query_movers w table dr")
  with items have r: "r = Inr items" by simp
  from run get dr qm r e have resp: "resp = internal_error e" by (simp add: query_main_def)
  then have st: "statusCode resp = 500" by (simp add: internal_error_def)
  have all: "\<exists>e. format_movers its = Inl e"
    if "it \<in> set its \<and> (map_of it ''date'' = None \<or> map_of it ''ticker'' = None)" for its it
    using format_movers_missing_key that by blast
  have pc: "format_item it = format_item ((''percent_change'', DNum 0) # it)"
    if "map_of it ''percent_change'' = None" for it
    using that by (auto simp: format_item_def split: option.splits)
  have cp: "format_item it = format_item ((''closing_price'', DNum 0) # it)"
    if "map_of it ''closing_price'' = None" for it
    using that by (auto simp: format_item_def split: option.splits)
  have both: "format_item it = Inr \<lparr>m_date = d, m_ticker = t, m_percent_change = 0, m_closing_price = 0\<rparr>"
    if "map_of it ''date'' = Some d \<and> map_of it ''ticker'' = Some t
          \<and> map_of it ''percent_change'' = None \<and> map_of it ''closing_price'' = None" for it d t
    using that by (simp add: format_item_def py_round_zero)
  from k resp st all pc cp both show ?thesis by blast
qed

lemma run_table_no_ticker:
  "query_main world_query \<lparr>httpMethod = Some ''GET''\<rparr> table_no_ticker
     = (\<lparr>statusCode = 500, body = ErrorBody ''Internal server error'' KeyError,
         headers = CORS_HEADERS\<rparr>,
        [BatchGetItem [''2025-06-10'', ''2025-06-09'', ''2025-06-08'', ''2025-06-07'',
         ''2025-06-06'', ''2025-06-05'', ''2025-06-04'']])"
  and date_range_world_query:
  "get_date_range world_query DAYS_TO_RETURN
     = Inr [''2025-06-10'', ''2025-06-09'', ''2025-06-08'', ''2025-06-07'',
            ''2025-06-06'', ''2025-06-05'', ''2025-06-04'']"
  and items_table_no_ticker:
  "fst (query_movers world_query table_no_ticker
         [''2025-06-10'', ''2025-06-09'', ''2025-06-08'', ''2025-06-07'',
          ''2025-06-06'', ''2025-06-05'', ''2025-06-04''])
     = Inr [[(''date'', DStr ''2025-06-07''), (''ticker'', DStr ''AAPL''),
             (''percent_change'', DStr ''1.2346''), (''closing_price'', DStr ''211.5'')],
            [(''date'', DStr ''2025-06-10''),
             (''percent_change'', DStr ''-5.0''), (''closing_price'', DStr ''190.0'')]]"
proof -
  have t: "today world_query = 739412" "get_error world_query = None"
    by (simp_all add: world_query_def world_closed_def)
  have "DAYS_TO_RETURN \<le> today world_query" by (simp add: t DAYS_TO_RETURN_def)
  from get_date_range_ok [OF this, unfolded date_range_7]
  show dr: "get_date_range world_query DAYS_TO_RETURN = Inr [''2025-06-10'', ''2025-06-09'', ''2025-06-08'', ''2025-06-07'',
         ''2025-06-06'', ''2025-06-05'', ''2025-06-04'']"
    by (simp only: t week_739412)
  have bg: "batch_get_item table_no_ticker (served world_query) [''2025-06-10'', ''2025-06-09'', ''2025-06-08'', ''2025-06-07'',
         ''2025-06-06'', ''2025-06-05'', ''2025-06-04''] =
       [[(''date'', DStr ''2025-06-07''), (''ticker'', DStr ''AAPL''),
             (''percent_change'', DStr ''1.2346''), (''closing_price'', DStr ''211.5'')],
            [(''date'', DStr ''2025-06-10''),
             (''percent_change'', DStr ''-5.0''), (''closing_price'', DStr ''190.0'')]]"
    by (simp add: batch_get_item_def world_query_def world_closed_def table_no_ticker_def get_item_def projection_def)
  show "fst (query_movers world_query table_no_ticker
         [''2025-06-10'', ''2025-06-09'', ''2025-06-08'', ''2025-06-07'',
          ''2025-06-06'', ''2025-06-05'', ''2025-06-04''])
     = Inr [[(''date'', DStr ''2025-06-07''), (''ticker'', DStr ''AAPL''),
             (''percent_change'', DStr ''1.2346''), (''closing_price'', DStr ''211.5'')],
            [(''date'', DStr ''2025-06-10''),
             (''percent_change'', DStr ''-5.0''), (''closing_price'', DStr ''190.0'')]]"
    by (simp add: query_movers_def t bg)
  show "query_main world_query \<lparr>httpMethod = Some ''GET''\<rparr> table_no_ticker
     = (\<lparr>statusCode = 500, body = ErrorBody ''Internal server error'' KeyError,
         headers = CORS_HEADERS\<rparr>,
        [BatchGetItem [''2025-06-10'', ''2025-06-09'', ''2025-06-08'', ''2025-06-07'',
         ''2025-06-06'', ''2025-06-05'', ''2025-06-04'']])"
    by (simp add: query_main_def dr query_movers_def t bg format_movers_def format_item_def
          float_examples py_round_def round_half_even_def Let_def internal_error_def)
qed

theorem missing_key_field_fails_request_witness:
  "query_main world_query \<lparr>httpMethod = Some ''GET''\<rparr> table_no_ticker
     = (\<lparr>statusCode = 500, body = ErrorBody ''Internal server error'' KeyError,
         headers = CORS_HEADERS\<rparr>,
        [BatchGetItem [''2025-06-10'', ''2025-06-09'', ''2025-06-08'', ''2025-06-07'',
         ''2025-06-06'', ''2025-06-05'', ''2025-06-04'']])
   \<and> httpMethod \<lparr>httpMethod = Some ''GET''\<rparr> \<noteq> Some ''OPTIONS''
   \<and> get_date_range world_query DAYS_TO_RETURN
        = Inr [''2025-06-10'', ''2025-06-09'', ''2025-06-08'', ''2025-06-07'',
               ''2025-06-06'', ''2025-06-05'', ''2025-06-04'']
   \<and> fst (query_movers world_query table_no_ticker
         [''2025-06-10'', ''2025-06-09'', ''2025-06-08'', ''2025-06-07'',
          ''2025-06-06'', ''2025-06-05'', ''2025-06-04''])
     = Inr [[(''date'', DStr ''2025-06-07''), (''ticker'', DStr ''AAPL''),
             (''percent_change'', DStr ''1.2346''), (''closing_price'', DStr ''211.5'')],
            [(''date'', DStr ''2025-06-10''),
             (''percent_change'', DStr ''-5.0''), (''closing_price'', DStr ''190.0'')]]
   \<and> map_of [(''date'', DStr ''2025-06-10''),
             (''percent_change'', DStr ''-5.0''), (''closing_price'', DStr ''190.0'')] ''ticker'' = None
   \<and> format_item [(''date'', DStr ''2025-06-10''),
             (''percent_change'', DStr ''-5.0''), (''closing_price'', DStr ''190.0'')] = Inl KeyError
   \<and> format_item item_no_numbers
        = Inr \<lparr>m_date = DStr ''2025-06-09'', m_ticker = DStr ''TSLA'',
               m_percent_change = 0, m_closing_price = 0\<rparr>"
proof -
  let ?bad = "[(''date'', DStr ''2025-06-10''),
             (''percent_change'', DStr ''-5.0''), (''closing_price'', DStr ''190.0'')]"
  let ?items = "[[(''date'', DStr ''2025-06-07''), (''ticker'', DStr ''AAPL''),
             (''percent_change'', DStr ''1.2346''), (''closing_price'', DStr ''211.5'')], ?bad]"
  have h2: "httpMethod \<lparr>httpMethod = Some ''GET''\<rparr> \<noteq> Some ''OPTIONS''" by simp
  have h5: "?bad \<in> set ?items" by simp
  have h6: "map_of ?bad ''ticker'' = None" by simp
  then have h6': "map_of ?bad ''date'' = None \<or> map_of ?bad ''ticker'' = None" by blast
  note inst = missing_key_field_fails_request
    [OF run_table_no_ticker h2 date_range_world_query items_table_no_ticker h5 h6']
  from inst have k: "format_item ?bad = Inl KeyError" by blast
  have m: "map_of item_no_numbers ''date'' = Some (DStr ''2025-06-09'')
       \<and> map_of item_no_numbers ''ticker'' = Some (DStr ''TSLA'')
       \<and> map_of item_no_numbers ''percent_change'' = None
       \<and> map_of item_no_numbers ''closing_price'' = None"
    by (simp add: item_no_numbers_def)
  from inst have "\<forall>it d t. map_of it ''date'' = Some d \<and> map_of it ''ticker'' = Some t
          \<and> map_of it ''percent_change'' = None \<and> map_of it ''closing_price'' = None
          \<longrightarrow> format_item it
                = Inr \<lparr>m_date = d, m_ticker = t, m_percent_change = 0, m_closing_price = 0\<rparr>"
    by blast
  with m have z: "format_item item_no_numbers
        = Inr \<lparr>m_date = DStr ''2025-06-09'', m_ticker = DStr ''TSLA'',
               m_percent_change = 0, m_closing_price = 0\<rparr>" by blast
  from run_table_no_ticker h2 date_range_world_query items_table_no_ticker h6 k z
  show ?thesis by blast
qed


section \<open>Properties of rounding and of numbers as text\<close>

lemma digit_val_zero: "digit_val CHR ''0'' = Some 0"
  by (simp add: digit_val_def)

lemma digit_val_digit_char: "d < 10 \<Longrightarrow> digit_val (digit_char d) = Some d"
proof -
  assume "d < 10"
  then have "d \<in> set [0 ..< 10]" by simp
  then have "d \<in> {0, 1, 2, 3, 4, 5, 6, 7, 8, 9}" by (auto simp: upt_rec eval_nat_numeral)
  then show ?thesis by (auto simp: digit_val_def digit_char_def)
qed

lemma digit_not_mark:
  "digit_val c = Some d \<Longrightarrow> c \<noteq> CHR ''.'' \<and> c \<noteq> CHR ''-'' \<and> c \<noteq> CHR ''+''"
  by (auto simp: digit_val_def)

lemma digits_val_append:
  "digits_val acc (s @ t) = (case digits_val acc s of None \<Rightarrow> None | Some a \<Rightarrow> digits_val a t)"
  by (induction s arbitrary: acc) (auto split: option.splits)

lemma digits_val_str_nat: "digits_val 0 (str_nat n) = Some n"
proof (induction n rule: str_nat.induct)
  case (1 n)
  show ?case
  proof (cases "n < 10")
    case True
    then show ?thesis by (simp add: str_nat_small digit_val_digit_char)
  next
    case False
    have "n mod 10 < 10" by simp
    with False 1 show ?thesis
      by (simp add: str_nat_big digits_val_append digit_val_digit_char)
  qed
qed

lemma str_nat_digits: "list_all (\<lambda>c. digit_val c \<noteq> None) (str_nat n)"
proof (induction n rule: str_nat.induct)
  case (1 n)
  show ?case
  proof (cases "n < 10")
    case True
    then show ?thesis by (simp add: str_nat_small digit_val_digit_char)
  next
    case False
    have "n mod 10 < 10" by simp
    with False 1 show ?thesis
      by (simp add: str_nat_big digit_val_digit_char)
  qed
qed

lemma str_nat_nonempty: "str_nat n \<noteq> []"
  by (cases "n < 10") (simp_all add: str_nat_small str_nat_big)

lemma length_str_nat: "0 < k \<Longrightarrow> n < 10 ^ k \<Longrightarrow> length (str_nat n) \<le> k"
proof (induction n arbitrary: k rule: str_nat.induct)
  case (1 n)
  show ?case
  proof (cases "n < 10")
    case True
    with "1.prems" show ?thesis by (simp add: str_nat_small Suc_le_eq)
  next
    case False
    from "1.prems" obtain j where k: "k = Suc j" by (cases k) auto
    from False "1.prems" k have "0 < j" by (cases j) auto
    moreover from "1.prems" k have "n div 10 < 10 ^ j"
      by (simp add: less_mult_imp_div_less mult.commute)
    ultimately have "length (str_nat (n div 10)) \<le> j" using "1.IH" [OF False] by blast
    with False k show ?thesis by (simp add: str_nat_big)
  qed
qed

lemma digits_val_leading_zeros: "digits_val 0 (replicate j CHR ''0'' @ s) = digits_val 0 s"
  by (induction j) (simp_all add: digit_val_zero)

lemma digits_val_zeros: "digits_val a (replicate j CHR ''0'') = Some (a * 10 ^ j)"
  by (induction j arbitrary: a) (simp_all add: digit_val_zero)

lemma digits_val_trailing_zeros:
  "digits_val acc (s @ replicate j CHR ''0'') = map_option (\<lambda>a. a * 10 ^ j) (digits_val acc s)"
  by (simp add: digits_val_append digits_val_zeros split: option.splits)

lemma rstrip_zeros_decomp: "\<exists>j. s = rstrip_zeros s @ replicate j CHR ''0''"
proof -
  let ?P = "\<lambda>c. c = CHR ''0''"
  have "takeWhile ?P (rev s) = replicate (length (takeWhile ?P (rev s))) CHR ''0''"
    by (rule replicate_length_same [symmetric]) (auto dest: set_takeWhileD)
  moreover have "s = rev (dropWhile ?P (rev s)) @ rev (takeWhile ?P (rev s))"
    by (metis rev_append rev_rev_ident takeWhile_dropWhile_id)
  ultimately have "s = rstrip_zeros s @ replicate (length (takeWhile ?P (rev s))) CHR ''0''"
    by (metis rev_replicate rstrip_zeros_def)
  then show ?thesis ..
qed

lemma rstrip_zeros_digits:
  "list_all (\<lambda>c. digit_val c \<noteq> None) s \<Longrightarrow> list_all (\<lambda>c. digit_val c \<noteq> None) (rstrip_zeros s)"
  by (auto simp: rstrip_zeros_def list_all_iff dest: set_dropWhileD)

lemma zfill_str_nat:
  assumes "0 < n" and "r < 10 ^ n"
  shows "length (zfill n (str_nat r)) = n"
    and "digits_val 0 (zfill n (str_nat r)) = Some r"
    and "list_all (\<lambda>c. digit_val c \<noteq> None) (zfill n (str_nat r))"
proof -
  from length_str_nat [OF assms] show "length (zfill n (str_nat r)) = n" by (simp add: zfill_def)
  show "digits_val 0 (zfill n (str_nat r)) = Some r"
    by (simp add: zfill_def digits_val_leading_zeros digits_val_str_nat)
  show "list_all (\<lambda>c. digit_val c \<noteq> None) (zfill n (str_nat r))"
    using str_nat_digits [of r] digit_val_zero by (auto simp: zfill_def list_all_iff)
qed

lemma fraction_digits:
  assumes n: "0 < n" and r: "r < 10 ^ n"
  defines "fp \<equiv> rstrip_zeros (zfill n (str_nat r))"
  defines "fp' \<equiv> (if fp = [] then ''0'' else fp)"
  shows "\<exists>b. digits_val 0 fp' = Some b \<and> real b / 10 ^ length fp' = real r / 10 ^ n"
    and "list_all (\<lambda>c. digit_val c \<noteq> None) fp'"
    and "fp' \<noteq> []"
proof -
  let ?z = "zfill n (str_nat r)"
  note z = zfill_str_nat [OF n r]
  from rstrip_zeros_decomp [of ?z] obtain j where j: "?z = fp @ replicate j CHR ''0''"
    unfolding fp_def by blast
  from z(2) j have "map_option (\<lambda>a. a * 10 ^ j) (digits_val 0 fp) = Some r"
    by (simp add: digits_val_trailing_zeros [symmetric])
  then obtain a where a: "digits_val 0 fp = Some a" "a * 10 ^ j = r" by auto
  from z(1) j have len: "length fp + j = n" by (metis length_append length_replicate)
  have val: "real a / 10 ^ length fp = real r / 10 ^ n"
  proof -
    have "real r = real a * 10 ^ j"
      using a(2) by (metis of_nat_mult of_nat_numeral of_nat_power)
    with len have "real r / 10 ^ n = (real a * 10 ^ j) / (10 ^ length fp * 10 ^ j)"
      by (simp add: power_add [symmetric])
    also have "\<dots> = real a / 10 ^ length fp" by simp
    finally show ?thesis by simp
  qed
  show "\<exists>b. digits_val 0 fp' = Some b \<and> real b / 10 ^ length fp' = real r / 10 ^ n"
  proof (cases "fp = []")
    case True
    with a have "a = 0" by simp
    with val have "real r / 10 ^ n = 0" by simp
    with True show ?thesis by (simp add: fp'_def digit_val_zero)
  next
    case False
    with a val show ?thesis by (simp add: fp'_def)
  qed
  show "list_all (\<lambda>c. digit_val c \<noteq> None) fp'"
    using rstrip_zeros_digits [OF z(3)] digit_val_zero by (simp add: fp'_def fp_def)
  show "fp' \<noteq> []" by (simp add: fp'_def)
qed


lemma div_mod_real:
  assumes "0 < p"
  shows "real (m div p) + real (m mod p) / real p = real m / real p"
proof -
  have "real m = real (m div p) * real p + real (m mod p)"
    by (metis div_mult_mod_eq of_nat_add of_nat_mult)
  then show ?thesis using assms by (simp add: field_simps)
qed

lemma str_fixed_parse:
  assumes n: "0 < n"
  shows "py_float_str (str_fixed n m) = Inr (real m / 10 ^ n)"
    and "py_float_str (CHR ''-'' # str_fixed n m) = Inr (- (real m / 10 ^ n))"
proof -
  define ip where "ip = str_nat (m div 10 ^ n)"
  define fp where "fp = rstrip_zeros (zfill n (str_nat (m mod 10 ^ n)))"
  define fp' where "fp' = (if fp = [] then ''0'' else fp)"
  have r: "m mod 10 ^ n < 10 ^ n" by simp
  from fraction_digits [OF n r] obtain b where
    b: "digits_val 0 fp' = Some b" "real b / 10 ^ length fp' = real (m mod 10 ^ n) / 10 ^ n"
    and fne: "fp' \<noteq> []"
    unfolding fp_def fp'_def by blast
  have s: "str_fixed n m = ip @ CHR ''.'' # fp'"
    by (simp add: str_fixed_def Let_def ip_def fp_def fp'_def)
  have ipd: "list_all (\<lambda>c. digit_val c \<noteq> None) ip" unfolding ip_def by (rule str_nat_digits)
  then have nodot: "\<forall>c \<in> set ip. c \<noteq> CHR ''.''"
    by (auto simp: list_all_iff dest: digit_not_mark)
  obtain c cs where ip: "ip = c # cs" using str_nat_nonempty [of "m div 10 ^ n"]
    by (cases ip) (auto simp: ip_def)
  with ipd have c: "c \<noteq> CHR ''-''" "c \<noteq> CHR ''+''" "c \<noteq> CHR ''.''"
    by (auto dest: digit_not_mark)
  have tw: "takeWhile (\<lambda>c. c \<noteq> CHR ''.'') (ip @ CHR ''.'' # fp') = ip"
    using nodot by (simp add: takeWhile_append2)
  have dw: "dropWhile (\<lambda>c. c \<noteq> CHR ''.'') (ip @ CHR ''.'' # fp') = CHR ''.'' # fp'"
    using nodot by (simp add: dropWhile_append2)
  have ipv: "digits_val 0 ip = Some (m div 10 ^ n)" unfolding ip_def by (rule digits_val_str_nat)
  have val: "real (m div 10 ^ n) + real b / 10 ^ length fp' = real m / 10 ^ n"
    using div_mod_real [of "10 ^ n" m] b(2) by simp
  have ipne: "ip \<noteq> []" using ip by simp
  let ?s = "ip @ CHR ''.'' # fp'"
  have sign: "(case ?s of c # _ \<Rightarrow> c = CHR ''-'' | [] \<Rightarrow> False) = False"
    using ip c by simp
  have body: "(case ?s of c # r \<Rightarrow> if c = CHR ''-'' \<or> c = CHR ''+'' then r else ?s | [] \<Rightarrow> ?s) = ?s"
    using ip c by simp
  have pos: "py_float_str ?s = Inr (real m / 10 ^ n)"
    unfolding py_float_str_def Let_def sign body tw dw
    using ipv b(1) val ipne by simp
  have neg: "py_float_str (CHR ''-'' # ?s) = Inr (- (real m / 10 ^ n))"
  proof -
    have sign': "(case CHR ''-'' # ?s of c # _ \<Rightarrow> c = CHR ''-'' | [] \<Rightarrow> False) = True" by simp
    have body': "(case CHR ''-'' # ?s of c # r \<Rightarrow> if c = CHR ''-'' \<or> c = CHR ''+'' then r else CHR ''-'' # ?s
                  | [] \<Rightarrow> CHR ''-'' # ?s) = ?s" by simp
    show ?thesis
      unfolding py_float_str_def Let_def sign' body' tw dw
      using ipv b(1) val ipne by simp
  qed
  from pos show "py_float_str (str_fixed n m) = Inr (real m / 10 ^ n)" by (simp only: s)
  from neg show "py_float_str (CHR ''-'' # str_fixed n m) = Inr (- (real m / 10 ^ n))"
    by (simp only: s)
qed





lemma float_of_written:
  assumes n: "0 < n"
  shows "py_float_str (py_str_decimal n (py_round x n)) = Inr (py_round x n)"
proof -
  define k where "k = round_half_even (x * 10 ^ n)"
  have v: "py_round x n = real_of_int k / 10 ^ n" by (simp add: py_round_def k_def)
  have sc: "\<bar>py_round x n\<bar> * 10 ^ n = real_of_int \<bar>k\<bar>" by (simp add: v abs_divide)
  have "\<lfloor>real_of_int \<bar>k\<bar>\<rfloor> = \<bar>k\<bar>" by (rule floor_of_int)
  with sc have m: "nat \<lfloor>\<bar>py_round x n\<bar> * 10 ^ n\<rfloor> = nat \<bar>k\<bar>" by (simp only:)
  have rm: "real (nat \<bar>k\<bar>) = \<bar>real_of_int k\<bar>" by simp
  have sgn: "py_round x n < 0 \<longleftrightarrow> k < 0" by (simp add: v divide_less_0_iff)
  show ?thesis
  proof (cases "k < 0")
    case True
    then have "py_str_decimal n (py_round x n) = CHR ''-'' # str_fixed n (nat \<bar>k\<bar>)"
      using sgn m by (simp add: py_str_decimal_def)
    then have "py_float_str (py_str_decimal n (py_round x n)) = Inr (- (real (nat \<bar>k\<bar>) / 10 ^ n))"
      using str_fixed_parse(2) [OF n] by simp
    also have "\<dots> = Inr (py_round x n)" using True by (simp add: v rm)
    finally show ?thesis .
  next
    case False
    then have "py_str_decimal n (py_round x n) = str_fixed n (nat \<bar>k\<bar>)"
      using sgn m by (simp add: py_str_decimal_def)
    then have "py_float_str (py_str_decimal n (py_round x n)) = Inr (real (nat \<bar>k\<bar>) / 10 ^ n)"
      using str_fixed_parse(1) [OF n] by simp
    also have "\<dots> = Inr (py_round x n)" using False by (simp add: v rm)
    finally show ?thesis .
  qed
qed

lemma float_attr_written:
  "0 < n \<Longrightarrow> float_attr (DStr (py_str_decimal n (py_round x n))) = Inr (py_round x n)"
  by (simp add: float_of_written)







end
